theory Spec2Isabelle
  imports Main "HOL-Library.AList"
begin

section \<open>Objects held by the declarative store\<close>

text \<open>
  The controller of \<^verbatim>\<open>cilium-haegress-operator\<close> works on three kinds of objects:
  the user's \<^verbatim>\<open>HAEgressGatewayPolicy\<close> (the spec's Policy), the derived
  \<^verbatim>\<open>CiliumEgressGatewayPolicy\<close> (GatewayPolicy) and the derived \<^verbatim>\<open>Service\<close>
  (ProbeService). Their Go types live in other modules; the records below carry the
  fields that the controller code reads or writes.

  A Go \<^verbatim>\<open>map[string]string\<close> is an association list. \<^verbatim>\<open>m[k]\<close> on a missing key
  (or on a nil map) is the empty string, \<^verbatim>\<open>m[k] = v\<close> overwrites or adds, and
  \<^verbatim>\<open>reflect.DeepEqual\<close> on two maps that are not nil compares them key by key. Where
  the controller compares a map that may be nil with \<^verbatim>\<open>reflect.DeepEqual\<close>, which
  tells a nil map from an empty one, the map is a \<open>go_map option\<close> and \<open>None\<close> is
  nil: these are the \<^verbatim>\<open>matchLabels\<close> of the label selectors of a rule. The selector of a
  Service is compared too, but with a desired value that always has entries, to which a
  nil map and an empty map are both unequal; there, as for labels and annotations, a nil
  map is \<open>[]\<close>.
\<close>

type_synonym go_map = "(string \<times> string) list"

definition index_map :: "go_map \<Rightarrow> string \<Rightarrow> string" where
  "index_map m k = (case map_of m k of None \<Rightarrow> [] | Some v \<Rightarrow> v)"

definition assign_map :: "go_map \<Rightarrow> string \<Rightarrow> string \<Rightarrow> go_map" where
  "assign_map m k v = AList.update k v m"

definition DeepEqual_map :: "go_map \<Rightarrow> go_map \<Rightarrow> bool" where
  "DeepEqual_map a b = list_all (\<lambda>k. map_of a k = map_of b k) (map fst a @ map fst b)"

record NamespacedName =
  Namespace :: string
  Name :: string

text \<open>
  \<^verbatim>\<open>metav1.OwnerReference\<close>. \<^verbatim>\<open>Controller\<close> is a \<^verbatim>\<open>*bool\<close>: \<open>None\<close> is the nil
  pointer.
\<close>

record OwnerReference =
  APIVersion :: string
  Kind :: string
  RefName :: string
  UID :: string
  Controller :: "bool option"
  BlockOwnerDeletion :: "bool option"

text \<open>
  The gateway specification, shared by the Policy and the GatewayPolicy
  (\<^verbatim>\<open>Spec: haEgressGatewayPolicy.Spec\<close>). \<^verbatim>\<open>Selectors\<close> is a Go slice of rules, each
  holding two pointers to a label selector; a label selector has a map
  \<^verbatim>\<open>matchLabels\<close> and a slice \<^verbatim>\<open>matchExpressions\<close> of requirements, each with a key,
  an operator and a slice of values. \<open>None\<close> is the nil slice, the nil pointer or the nil
  map, which \<^verbatim>\<open>reflect.DeepEqual\<close> tells apart from an empty slice or map.
\<close>

record LabelSelectorRequirement =
  Key :: string
  Operator :: string
  Values :: "string list option"

record LabelSelector =
  MatchLabels :: "go_map option"
  MatchExpressions :: "LabelSelectorRequirement list option"

record EgressRule =
  NamespaceSelector :: "LabelSelector option"
  PodSelector :: "LabelSelector option"

record EgressGateway =
  NodeSelector_MatchLabels :: go_map
  EgressIP :: string

record CiliumEgressGatewayPolicySpec =
  Selectors :: "EgressRule list option"
  DestinationCIDRs :: "string list"
  ExcludedCIDRs :: "string list"
  Gateway :: EgressGateway

text \<open>
  \<^verbatim>\<open>reflect.DeepEqual\<close> on \<^verbatim>\<open>Spec.Selectors\<close>, level by level. Two slices are equal
  when both are nil, or neither is and they have the same length and equal elements; two
  pointers when both are nil, or neither is and what they point to is equal; two maps
  when both are nil, or neither is and they hold the same entries. A requirement holds
  strings and a slice of strings only, so equality of requirements, and of slices of
  them, is the equality of HOL.
\<close>

fun DeepEqual_labels :: "go_map option \<Rightarrow> go_map option \<Rightarrow> bool" where
  "DeepEqual_labels None None = True"
| "DeepEqual_labels (Some a) (Some b) = DeepEqual_map a b"
| "DeepEqual_labels _ _ = False"

definition DeepEqual_LabelSelector :: "LabelSelector \<Rightarrow> LabelSelector \<Rightarrow> bool" where
  "DeepEqual_LabelSelector a b \<longleftrightarrow>
     DeepEqual_labels (MatchLabels a) (MatchLabels b) \<and>
     MatchExpressions a = MatchExpressions b"

fun DeepEqual_selector :: "LabelSelector option \<Rightarrow> LabelSelector option \<Rightarrow> bool" where
  "DeepEqual_selector None None = True"
| "DeepEqual_selector (Some a) (Some b) = DeepEqual_LabelSelector a b"
| "DeepEqual_selector _ _ = False"

definition DeepEqual_rule :: "EgressRule \<Rightarrow> EgressRule \<Rightarrow> bool" where
  "DeepEqual_rule a b \<longleftrightarrow>
     DeepEqual_selector (NamespaceSelector a) (NamespaceSelector b) \<and>
     DeepEqual_selector (PodSelector a) (PodSelector b)"

fun DeepEqual_Selectors :: "EgressRule list option \<Rightarrow> EgressRule list option \<Rightarrow> bool" where
  "DeepEqual_Selectors None None = True"
| "DeepEqual_Selectors (Some xs) (Some ys) = list_all2 DeepEqual_rule xs ys"
| "DeepEqual_Selectors _ _ = False"

record HAEgressGatewayPolicyStatus =
  IPAddress :: string
  ExitNode :: string
  LastModifiedTime :: int

record HAEgressGatewayPolicy =
  p_Name :: string
  p_Namespace :: string
  p_UID :: string
  p_Labels :: go_map
  p_Annotations :: go_map
  p_Spec :: CiliumEgressGatewayPolicySpec
  p_Status :: HAEgressGatewayPolicyStatus

record CiliumEgressGatewayPolicy =
  g_Name :: string
  g_Namespace :: string
  g_Labels :: go_map
  g_Annotations :: go_map
  g_OwnerReferences :: "OwnerReference list"
  g_Spec :: CiliumEgressGatewayPolicySpec

record ServicePort =
  PortName :: string
  Protocol :: string
  Port :: int

record ServiceSpec =
  LoadBalancerClass :: "string option"
  Ports :: "ServicePort list"
  ServiceType :: string
  Selector :: go_map

text \<open>
  \<open>s_Ingress\<close> is \<^verbatim>\<open>Status.LoadBalancer.Ingress\<close>, each entry reduced to its
  \<^verbatim>\<open>IP\<close> field, the only one the controller reads.
\<close>

record Service =
  s_Name :: string
  s_Namespace :: string
  s_Labels :: go_map
  s_Annotations :: go_map
  s_OwnerReferences :: "OwnerReference list"
  s_Spec :: ServiceSpec
  s_Ingress :: "string list"

section \<open>The Event Router\<close>

text \<open>
  A watched object is a \<^verbatim>\<open>client.Object\<close>; the router uses two of its methods.
\<close>

datatype watched = ServiceObject Service | GatewayPolicyObject CiliumEgressGatewayPolicy

fun GetOwnerReferences :: "watched \<Rightarrow> OwnerReference list" where
  "GetOwnerReferences (ServiceObject s) = s_OwnerReferences s"
| "GetOwnerReferences (GatewayPolicyObject g) = g_OwnerReferences g"

fun GetNamespace :: "watched \<Rightarrow> string" where
  "GetNamespace (ServiceObject s) = s_Namespace s"
| "GetNamespace (GatewayPolicyObject g) = g_Namespace g"

text \<open>
  \<^verbatim>\<open>findObjectsForHaegressGatewayPolicy\<close>: the \<^verbatim>\<open>for ... range ownerRefs\<close> loop,
  with the slice \<^verbatim>\<open>requests\<close> as accumulator. There is no \<^verbatim>\<open>break\<close> in the loop.
\<close>

fun findObjects_loop :: "watched \<Rightarrow> OwnerReference list \<Rightarrow> NamespacedName list \<Rightarrow> NamespacedName list" where
  "findObjects_loop obj [] requests = requests"
| "findObjects_loop obj (ownerRef # rest) requests =
     findObjects_loop obj rest
       (if Kind ownerRef = ''HAEgressGatewayPolicy''
        then requests @ [\<lparr>Namespace = GetNamespace obj, Name = RefName ownerRef\<rparr>]
        else requests)"

definition findObjectsForHaegressGatewayPolicy :: "watched \<Rightarrow> NamespacedName list" where
  "findObjectsForHaegressGatewayPolicy obj = findObjects_loop obj (GetOwnerReferences obj) []"

text \<open>
  The two \<^verbatim>\<open>Watches\<close> of \<^verbatim>\<open>SetupWithManager\<close> carry the same
  \<^verbatim>\<open>predicate.Funcs\<close>. The handler \<^verbatim>\<open>EnqueueRequestsFromMapFunc\<close> belongs to
  controller-runtime: an event that passes the predicate is mapped through the map
  function (both the old and the new object of an update), and equal requests of one
  event are enqueued once.
\<close>

datatype watch_event =
  CreateEvent watched
| UpdateEvent watched watched
| DeleteEvent watched
| GenericEvent watched

fun watch_predicate :: "watch_event \<Rightarrow> bool" where
  "watch_predicate (DeleteEvent e) = True"
| "watch_predicate (CreateEvent e) = False"
| "watch_predicate (UpdateEvent old new) = False"
| "watch_predicate (GenericEvent e) = False"

fun event_objects :: "watch_event \<Rightarrow> watched list" where
  "event_objects (CreateEvent e) = [e]"
| "event_objects (UpdateEvent old new) = [old, new]"
| "event_objects (DeleteEvent e) = [e]"
| "event_objects (GenericEvent e) = [e]"

definition enqueued :: "watch_event \<Rightarrow> NamespacedName list" where
  "enqueued ev =
     (if watch_predicate ev
      then remdups (concat (map findObjectsForHaegressGatewayPolicy (event_objects ev)))
      else [])"

section \<open>The store client, the event recorder and the clock\<close>

text \<open>
  Package \<^verbatim>\<open>haegressip\<close> (annotation keys, event reason, requeue delays) is
  imported by the controller; its constants are parameters of the model.
\<close>

record haegressip_consts =
  HAEgressGatewayPolicyNamespace :: string
  HAEgressGatewayPolicyName :: string
  KubernetesServiceProxyNameAnnotation :: string
  NodeNameAnnotation :: string
  KubeVIPVipHostAnnotation :: string
  EventEgressUpdateReason :: string
  HAEgressGatewayPolicyChcekRequeueAfter :: int
  LeaseCheckRequeueAfter :: int

text \<open>
  \<^verbatim>\<open>HAEgressGatewayPolicyReconciler\<close>. \<open>Scheme\<close> is what \<^verbatim>\<open>r.Scheme\<close> knows
  about the Policy type: its registered API version, or \<open>None\<close> when the type is not
  registered. The mutable field \<^verbatim>\<open>lastServiceUpdate\<close> is part of the state below.
\<close>

record reconciler =
  EgressNamespace :: string
  r_LoadBalancerClass :: string
  BackgroundCheckerSeconds :: int
  Scheme :: "string option"
  haegressip :: haegressip_consts

datatype err = NotFound | AlreadyExists | StoreFailure | OwnerError

definition IsNotFound :: "err \<Rightarrow> bool" where
  "IsNotFound e \<longleftrightarrow> e = NotFound"

text \<open>
  Every call on the store client, with what is sent. The client writes the store's answer
  back into the object it was given; the controller code reads nothing from an object after
  sending it that the object did not hold before, so the model keeps the object as sent.
  A conflict on the resource version is one of the reasons for which the store may fail a
  write; it is covered by \<open>faults\<close> below.
\<close>

datatype api_call =
  Get_Policy NamespacedName
| List_Policies
| StatusUpdate_Policy HAEgressGatewayPolicy
| Get_GatewayPolicy NamespacedName
| Create_GatewayPolicy CiliumEgressGatewayPolicy
| Update_GatewayPolicy CiliumEgressGatewayPolicy
| Patch_GatewayPolicy NamespacedName string string
| Get_Service NamespacedName
| Create_Service Service
| Update_Service Service

fun is_write :: "api_call \<Rightarrow> bool" where
  "is_write (Get_Policy k) = False"
| "is_write List_Policies = False"
| "is_write (Get_GatewayPolicy k) = False"
| "is_write (Get_Service k) = False"
| "is_write (StatusUpdate_Policy p) = True"
| "is_write (Create_GatewayPolicy g) = True"
| "is_write (Update_GatewayPolicy g) = True"
| "is_write (Patch_GatewayPolicy k l v) = True"
| "is_write (Create_Service s) = True"
| "is_write (Update_Service s) = True"

fun is_Update_GatewayPolicy :: "api_call \<Rightarrow> bool" where
  "is_Update_GatewayPolicy (Update_GatewayPolicy g) = True"
| "is_Update_GatewayPolicy _ = False"

fun is_Get_Policy :: "api_call \<Rightarrow> bool" where
  "is_Get_Policy (Get_Policy k) = True"
| "is_Get_Policy _ = False"

datatype involved =
  OnPolicy NamespacedName
| OnGatewayPolicy NamespacedName
| OnService NamespacedName

text \<open>An event of the recorder; the message text is not modelled.\<close>

record event =
  ev_object :: involved
  ev_type :: string
  ev_reason :: string

text \<open>
  The state threaded through the controller code: the three object collections of the
  store (association lists in creation order), the calls made on the client so far with
  their outcome, the recorded events, the clock and the reconciler's
  \<^verbatim>\<open>lastServiceUpdate\<close> cell (\<open>None\<close>: nothing stored yet).

  \<open>faults\<close> decides which client calls fail for a reason of the store's own (network,
  timeout, conflict): the \<open>n\<close>-th call fails when \<open>faults n\<close>. \<open>clock\<close> gives the
  instant, in nanoseconds, returned by the \<open>n\<close>-th reading of the time.
\<close>

record world =
  policies :: "(NamespacedName \<times> HAEgressGatewayPolicy) list"
  gatewayPolicies :: "(NamespacedName \<times> CiliumEgressGatewayPolicy) list"
  services :: "(NamespacedName \<times> Service) list"
  faults :: "nat \<Rightarrow> bool"
  trace :: "(api_call \<times> err option) list"
  events :: "event list"
  clock :: "nat \<Rightarrow> int"
  clockReads :: nat
  lastServiceUpdate :: "int option"

definition fault_injected :: "world \<Rightarrow> bool" where
  "fault_injected w = faults w (length (trace w))"

definition logged :: "api_call \<Rightarrow> err option \<Rightarrow> world \<Rightarrow> world" where
  "logged c e w = w\<lparr>trace := trace w @ [(c, e)]\<rparr>"

definition calls_since :: "world \<Rightarrow> world \<Rightarrow> (api_call \<times> err option) list" where
  "calls_since w w' = drop (length (trace w)) (trace w')"

definition time_Now :: "world \<Rightarrow> int \<times> world" where
  "time_Now w = (clock w (clockReads w), w\<lparr>clockReads := Suc (clockReads w)\<rparr>)"

definition Event :: "involved \<Rightarrow> string \<Rightarrow> string \<Rightarrow> world \<Rightarrow> world" where
  "Event obj ty reason w =
     w\<lparr>events := events w @ [\<lparr>ev_object = obj, ev_type = ty, ev_reason = reason\<rparr>]\<rparr>"

definition client_Get ::
  "api_call \<Rightarrow> (NamespacedName \<times> 'a) list \<Rightarrow> NamespacedName \<Rightarrow> world \<Rightarrow> (err + 'a) \<times> world" where
  "client_Get c objs k w =
     (if fault_injected w then (Inl StoreFailure, logged c (Some StoreFailure) w)
      else case map_of objs k of
             None \<Rightarrow> (Inl NotFound, logged c (Some NotFound) w)
           | Some x \<Rightarrow> (Inr x, logged c None w))"

definition Get_policy :: "NamespacedName \<Rightarrow> world \<Rightarrow> (err + HAEgressGatewayPolicy) \<times> world" where
  "Get_policy k w = client_Get (Get_Policy k) (policies w) k w"

definition Get_gatewayPolicy ::
  "NamespacedName \<Rightarrow> world \<Rightarrow> (err + CiliumEgressGatewayPolicy) \<times> world" where
  "Get_gatewayPolicy k w = client_Get (Get_GatewayPolicy k) (gatewayPolicies w) k w"

definition Get_service :: "NamespacedName \<Rightarrow> world \<Rightarrow> (err + Service) \<times> world" where
  "Get_service k w = client_Get (Get_Service k) (services w) k w"

definition List_policies :: "world \<Rightarrow> (err + HAEgressGatewayPolicy list) \<times> world" where
  "List_policies w =
     (if fault_injected w then (Inl StoreFailure, logged List_Policies (Some StoreFailure) w)
      else (Inr (map snd (policies w)), logged List_Policies None w))"

definition g_key :: "CiliumEgressGatewayPolicy \<Rightarrow> NamespacedName" where
  "g_key g = \<lparr>Namespace = g_Namespace g, Name = g_Name g\<rparr>"

definition s_key :: "Service \<Rightarrow> NamespacedName" where
  "s_key s = \<lparr>Namespace = s_Namespace s, Name = s_Name s\<rparr>"

definition p_key :: "HAEgressGatewayPolicy \<Rightarrow> NamespacedName" where
  "p_key p = \<lparr>Namespace = p_Namespace p, Name = p_Name p\<rparr>"

definition Create_gatewayPolicy :: "CiliumEgressGatewayPolicy \<Rightarrow> world \<Rightarrow> err option \<times> world" where
  "Create_gatewayPolicy g w =
     (let c = Create_GatewayPolicy g in
      if fault_injected w then (Some StoreFailure, logged c (Some StoreFailure) w)
      else if map_of (gatewayPolicies w) (g_key g) \<noteq> None
      then (Some AlreadyExists, logged c (Some AlreadyExists) w)
      else (None, logged c None (w\<lparr>gatewayPolicies := gatewayPolicies w @ [(g_key g, g)]\<rparr>)))"

definition Update_gatewayPolicy :: "CiliumEgressGatewayPolicy \<Rightarrow> world \<Rightarrow> err option \<times> world" where
  "Update_gatewayPolicy g w =
     (let c = Update_GatewayPolicy g in
      if fault_injected w then (Some StoreFailure, logged c (Some StoreFailure) w)
      else if map_of (gatewayPolicies w) (g_key g) = None
      then (Some NotFound, logged c (Some NotFound) w)
      else (None, logged c None
              (w\<lparr>gatewayPolicies := AList.update (g_key g) g (gatewayPolicies w)\<rparr>)))"

text \<open>
  The merge patch sent by the Feedback Synchronizer names one entry of
  \<^verbatim>\<open>spec.egressGateway.nodeSelector.matchLabels\<close>; every other field of the stored
  object stays.
\<close>

definition Patch_gatewayPolicy ::
  "CiliumEgressGatewayPolicy \<Rightarrow> string \<Rightarrow> string \<Rightarrow> world \<Rightarrow> err option \<times> world" where
  "Patch_gatewayPolicy g label v w =
     (let c = Patch_GatewayPolicy (g_key g) label v in
      if fault_injected w then (Some StoreFailure, logged c (Some StoreFailure) w)
      else case map_of (gatewayPolicies w) (g_key g) of
             None \<Rightarrow> (Some NotFound, logged c (Some NotFound) w)
           | Some stored \<Rightarrow>
               (let gw = Gateway (g_Spec stored);
                    gw' = gw\<lparr>NodeSelector_MatchLabels :=
                               assign_map (NodeSelector_MatchLabels gw) label v\<rparr>;
                    stored' = stored\<lparr>g_Spec := (g_Spec stored)\<lparr>Gateway := gw'\<rparr>\<rparr>
                in (None, logged c None
                      (w\<lparr>gatewayPolicies :=
                           AList.update (g_key g) stored' (gatewayPolicies w)\<rparr>))))"

definition Create_service :: "Service \<Rightarrow> world \<Rightarrow> err option \<times> world" where
  "Create_service s w =
     (let c = Create_Service s in
      if fault_injected w then (Some StoreFailure, logged c (Some StoreFailure) w)
      else if map_of (services w) (s_key s) \<noteq> None
      then (Some AlreadyExists, logged c (Some AlreadyExists) w)
      else (None, logged c None (w\<lparr>services := services w @ [(s_key s, s)]\<rparr>)))"

text \<open>
  An update of a Service replaces its metadata and its spec by what is sent; the status
  is a subresource and keeps the stored value.
\<close>

definition Update_service :: "Service \<Rightarrow> world \<Rightarrow> err option \<times> world" where
  "Update_service s w =
     (let c = Update_Service s in
      if fault_injected w then (Some StoreFailure, logged c (Some StoreFailure) w)
      else case map_of (services w) (s_key s) of
             None \<Rightarrow> (Some NotFound, logged c (Some NotFound) w)
           | Some stored \<Rightarrow>
               (None, logged c None
                  (w\<lparr>services :=
                       AList.update (s_key s) (s\<lparr>s_Ingress := s_Ingress stored\<rparr>) (services w)\<rparr>)))"

text \<open>\<^verbatim>\<open>r.Status().Update\<close>: only the status of the stored Policy is replaced.\<close>

definition StatusUpdate_policy :: "HAEgressGatewayPolicy \<Rightarrow> world \<Rightarrow> err option \<times> world" where
  "StatusUpdate_policy p w =
     (let c = StatusUpdate_Policy p in
      if fault_injected w then (Some StoreFailure, logged c (Some StoreFailure) w)
      else case map_of (policies w) (p_key p) of
             None \<Rightarrow> (Some NotFound, logged c (Some NotFound) w)
           | Some stored \<Rightarrow>
               (None, logged c None
                  (w\<lparr>policies :=
                       AList.update (p_key p) (stored\<lparr>p_Status := p_Status p\<rparr>) (policies w)\<rparr>)))"

section \<open>Owner references\<close>

text \<open>
  \<^verbatim>\<open>metav1.IsControlledBy\<close> and \<^verbatim>\<open>controllerutil.SetControllerReference\<close> are
  library functions; they are written out as far as the controller depends on them.
  The controller reference is the first owner reference whose \<^verbatim>\<open>Controller\<close> pointer
  is set and true; an object is controlled by an owner when that reference carries the
  owner's UID.
\<close>

fun GetControllerOf :: "OwnerReference list \<Rightarrow> OwnerReference option" where
  "GetControllerOf [] = None"
| "GetControllerOf (ref # refs) =
     (if Controller ref = Some True then Some ref else GetControllerOf refs)"

definition IsControlledBy :: "OwnerReference list \<Rightarrow> HAEgressGatewayPolicy \<Rightarrow> bool" where
  "IsControlledBy refs owner =
     (case GetControllerOf refs of None \<Rightarrow> False | Some ref \<Rightarrow> UID ref = p_UID owner)"

definition validateOwner :: "string \<Rightarrow> string \<Rightarrow> bool" where
  "validateOwner ownerNs objNs \<longleftrightarrow> ownerNs = [] \<or> (objNs \<noteq> [] \<and> ownerNs = objNs)"

text \<open>The group of an API version: \<open>None\<close> when it does not parse.\<close>

definition ParseGroup :: "string \<Rightarrow> string option" where
  "ParseGroup gv =
     (let n = length (filter (\<lambda>c. c = CHR ''/'') gv) in
      if n = 0 then Some []
      else if n = 1 then Some (takeWhile (\<lambda>c. c \<noteq> CHR ''/'') gv)
      else None)"

definition referSameObject :: "OwnerReference \<Rightarrow> OwnerReference \<Rightarrow> bool" where
  "referSameObject a b =
     (case (ParseGroup (APIVersion a), ParseGroup (APIVersion b)) of
        (Some ga, Some gb) \<Rightarrow> ga = gb \<and> Kind a = Kind b \<and> RefName a = RefName b
      | _ \<Rightarrow> False)"

fun upsertOwnerRef :: "OwnerReference \<Rightarrow> OwnerReference list \<Rightarrow> OwnerReference list" where
  "upsertOwnerRef ref [] = [ref]"
| "upsertOwnerRef ref (r # rs) =
     (if referSameObject r ref then ref # rs else r # upsertOwnerRef ref rs)"

definition SetControllerReference ::
  "string option \<Rightarrow> HAEgressGatewayPolicy \<Rightarrow> string \<Rightarrow> OwnerReference list \<Rightarrow> err + OwnerReference list" where
  "SetControllerReference scheme owner objNs refs =
     (if \<not> validateOwner (p_Namespace owner) objNs then Inl OwnerError
      else case scheme of
             None \<Rightarrow> Inl OwnerError
           | Some apiVersion \<Rightarrow>
               (let ref = \<lparr>APIVersion = apiVersion, Kind = ''HAEgressGatewayPolicy'',
                           RefName = p_Name owner, UID = p_UID owner,
                           Controller = Some True, BlockOwnerDeletion = Some True\<rparr>
                in case GetControllerOf refs of
                     None \<Rightarrow> Inr (upsertOwnerRef ref refs)
                   | Some existing \<Rightarrow>
                       if referSameObject existing ref then Inr (upsertOwnerRef ref refs)
                       else Inl OwnerError))"

section \<open>The Feedback Synchronizer\<close>

text \<open>
  \<^verbatim>\<open>SyncServiceWithCiliumEgressGatewayPolicy\<close> is written in three parts that follow
  the text of the function: the loop over the owner references, the block guarded by the
  ingress addresses, and the rest. The gateway of a GatewayPolicy and its node selector are
  pointers in Go, which the function dereferences without a check; the schema of the
  resource requires both, and the model takes them as present. Log lines are not modelled.

  \<^verbatim>\<open>ctrl.Result\<close>: \<open>RequeueAfter = 0\<close> is the empty result. The second component of
  what the synchronizer returns is the Go error, \<open>None\<close> for nil.
\<close>

record Result =
  RequeueAfter :: int

definition Result_empty :: Result where
  "Result_empty = \<lparr>RequeueAfter = 0\<rparr>"

text \<open>\<^verbatim>\<open>&v2.HAEgressGatewayPolicy{}\<close>, the zero value.\<close>

definition zero_policy :: HAEgressGatewayPolicy where
  "zero_policy =
     \<lparr>p_Name = [], p_Namespace = [], p_UID = [], p_Labels = [], p_Annotations = [],
      p_Spec = \<lparr>Selectors = None, DestinationCIDRs = [], ExcludedCIDRs = [],
                Gateway = \<lparr>NodeSelector_MatchLabels = [], EgressIP = []\<rparr>\<rparr>,
      p_Status = \<lparr>IPAddress = [], ExitNode = [], LastModifiedTime = 0\<rparr>\<rparr>"

text \<open>
  The loop over the owner references of the GatewayPolicy: the first reference of kind
  \<^verbatim>\<open>HAEgressGatewayPolicy\<close> is fetched, under the namespace of the GatewayPolicy, and
  the loop breaks. \<open>None\<close> is the early \<^verbatim>\<open>return ctrl.Result{}, nil\<close> of a failed fetch.
\<close>

fun Sync_owner ::
  "string \<Rightarrow> OwnerReference list \<Rightarrow> HAEgressGatewayPolicy \<Rightarrow> world \<Rightarrow> HAEgressGatewayPolicy option \<times> world" where
  "Sync_owner ns [] hp w = (Some hp, w)"
| "Sync_owner ns (ownerRef # rest) hp w =
     (if Kind ownerRef = ''HAEgressGatewayPolicy''
      then (case Get_policy \<lparr>Namespace = ns, Name = RefName ownerRef\<rparr> w of
              (Inl e, w') \<Rightarrow> (None, w')
            | (Inr p, w') \<Rightarrow> (Some p, w'))
      else Sync_owner ns rest hp w)"

text \<open>
  The block \<^verbatim>\<open>if len(service.Status.LoadBalancer.Ingress) > 0\<close>. \<open>Inl\<close> is a return
  from the function, \<open>Inr\<close> carries the local Policy object on to the rest.
\<close>

definition Sync_address ::
  "haegressip_consts \<Rightarrow> Service \<Rightarrow> CiliumEgressGatewayPolicy \<Rightarrow> HAEgressGatewayPolicy \<Rightarrow> world
     \<Rightarrow> ((Result \<times> err option) + HAEgressGatewayPolicy) \<times> world" where
  "Sync_address c service g hp w =
     (case s_Ingress service of
        [] \<Rightarrow> (Inr hp, w)
      | ip # others \<Rightarrow>
          (case Get_gatewayPolicy (g_key g) w of
             (Inl e, w1) \<Rightarrow>
               (Inl (\<lparr>RequeueAfter = HAEgressGatewayPolicyChcekRequeueAfter c\<rparr>, Some e), w1)
           | (Inr updated, w1) \<Rightarrow>
               (let (failed, w2) =
                      (if EgressIP (Gateway (g_Spec updated)) \<noteq> ip
                       then (let gw = Gateway (g_Spec updated);
                                 updated' = updated\<lparr>g_Spec := (g_Spec updated)\<lparr>Gateway := gw\<lparr>EgressIP := ip\<rparr>\<rparr>\<rparr>;
                                 (uerr, w') = Update_gatewayPolicy updated' w1
                             in (uerr \<noteq> None, w'))
                       else (False, w1))
                in if failed
                   then (Inl (\<lparr>RequeueAfter = HAEgressGatewayPolicyChcekRequeueAfter c\<rparr>, None), w2)
                   else if IPAddress (p_Status hp) \<noteq> ip
                   then (let (now, w3) = time_Now w2;
                             hp' = hp\<lparr>p_Status := (p_Status hp)\<lparr>IPAddress := ip, LastModifiedTime := now\<rparr>\<rparr>;
                             (serr, w4) = StatusUpdate_policy hp' w3
                         in (Inr hp', w4))
                   else (Inr hp, w2))))"

text \<open>The rest of the function, from \<^verbatim>\<open>if currentHost == ""\<close> on.\<close>

definition Sync_node ::
  "haegressip_consts \<Rightarrow> Service \<Rightarrow> CiliumEgressGatewayPolicy \<Rightarrow> string \<Rightarrow> string
     \<Rightarrow> HAEgressGatewayPolicy \<Rightarrow> world \<Rightarrow> (Result \<times> err option) \<times> world" where
  "Sync_node c service g policyHost currentHost hp w =
     (if currentHost = [] then ((Result_empty, None), w)
      else
        (let w1 = (if ExitNode (p_Status hp) \<noteq> currentHost
                   then (let (now, w') = time_Now w;
                             hp' = hp\<lparr>p_Status := (p_Status hp)\<lparr>ExitNode := currentHost, LastModifiedTime := now\<rparr>\<rparr>;
                             (serr, w'') = StatusUpdate_policy hp' w'
                         in w'')
                   else w)
         in if policyHost = currentHost then ((Result_empty, None), w1)
            else (case Patch_gatewayPolicy g (NodeNameAnnotation c) currentHost w1 of
                    (Some e, w2) \<Rightarrow> ((\<lparr>RequeueAfter = LeaseCheckRequeueAfter c\<rparr>, Some e), w2)
                  | (None, w2) \<Rightarrow>
                      ((Result_empty, None),
                       Event (OnService (s_key service)) ''Normal'' (EventEgressUpdateReason c)
                         (Event (OnGatewayPolicy (g_key g)) ''Normal'' (EventEgressUpdateReason c) w2)))))"

definition SyncServiceWithCiliumEgressGatewayPolicy ::
  "haegressip_consts \<Rightarrow> Service \<Rightarrow> CiliumEgressGatewayPolicy \<Rightarrow> world \<Rightarrow> (Result \<times> err option) \<times> world" where
  "SyncServiceWithCiliumEgressGatewayPolicy c service g w =
     (case Sync_owner (g_Namespace g) (g_OwnerReferences g) zero_policy w of
        (None, w1) \<Rightarrow> ((Result_empty, None), w1)
      | (Some hp, w1) \<Rightarrow>
          (let policyHost = index_map (NodeSelector_MatchLabels (Gateway (g_Spec g))) (NodeNameAnnotation c);
               currentHost = index_map (s_Annotations service) (KubeVIPVipHostAnnotation c)
           in case Sync_address c service g hp w1 of
                (Inl ret, w2) \<Rightarrow> (ret, w2)
              | (Inr hp', w2) \<Rightarrow> Sync_node c service g policyHost currentHost hp' w2))"

section \<open>The Drift Reconciler\<close>

definition serviceNamespace :: "reconciler \<Rightarrow> HAEgressGatewayPolicy \<Rightarrow> string" where
  "serviceNamespace r p =
     (let a = index_map (p_Annotations p) (HAEgressGatewayPolicyNamespace (haegressip r))
      in if a \<noteq> [] then a else EgressNamespace r)"

text \<open>The literal \<^verbatim>\<open>ciliumEgressGatewayPolicyNew\<close>, before the owner reference is set.\<close>

definition ciliumEgressGatewayPolicyNew :: "reconciler \<Rightarrow> HAEgressGatewayPolicy \<Rightarrow> CiliumEgressGatewayPolicy" where
  "ciliumEgressGatewayPolicyNew r p =
     \<lparr>g_Name = serviceNamespace r p @ ''-'' @ p_Name p, g_Namespace = [],
      g_Labels = p_Labels p, g_Annotations = p_Annotations p,
      g_OwnerReferences = [], g_Spec = p_Spec p\<rparr>"

definition UpdateOrCreateCiliumEgressGatewayPolicy ::
  "reconciler \<Rightarrow> HAEgressGatewayPolicy \<Rightarrow> world \<Rightarrow> err option \<times> world" where
  "UpdateOrCreateCiliumEgressGatewayPolicy r p w0 =
     (let (now, w') = time_Now w0;
          w = w'\<lparr>lastServiceUpdate := Some now\<rparr>;
          new0 = ciliumEgressGatewayPolicyNew r p
      in case SetControllerReference (Scheme r) p (g_Namespace new0) (g_OwnerReferences new0) of
           Inl e \<Rightarrow> (Some e, w)
         | Inr refs \<Rightarrow>
             (let new = new0\<lparr>g_OwnerReferences := refs\<rparr> in
              case Get_gatewayPolicy \<lparr>Namespace = [], Name = g_Name new\<rparr> w of
                (Inl e, w1) \<Rightarrow>
                  (if IsNotFound e
                   then (let (cerr, w2) = Create_gatewayPolicy new w1;
                             w3 = Event (OnPolicy (p_key p)) ''Normal'' ''Created'' w2
                         in case cerr of
                              Some e' \<Rightarrow> (Some e', w3)
                            | None \<Rightarrow>
                                (case SetControllerReference (Scheme r) p (g_Namespace new) (g_OwnerReferences new) of
                                   Inl e' \<Rightarrow> (Some e', w3)
                                 | Inr refs' \<Rightarrow>
                                     (case Get_service \<lparr>Namespace = serviceNamespace r p, Name = p_Name p\<rparr> w3 of
                                        (Inr service, w4) \<Rightarrow>
                                          (let ((res, syncError), w5) =
                                                 SyncServiceWithCiliumEgressGatewayPolicy (haegressip r) service
                                                   (new\<lparr>g_OwnerReferences := refs'\<rparr>) w4
                                           in (syncError, w5))
                                      | (Inl e', w4) \<Rightarrow> (None, w4))))
                   else (Some e, w1))
              | (Inr exist, w1) \<Rightarrow>
                  (if \<not> IsControlledBy (g_OwnerReferences exist) p
                   then (None, Event (OnPolicy (p_key p)) ''Warning'' ''AlreadyExists'' w1)
                   else if \<not> DeepEqual_Selectors (Selectors (g_Spec exist)) (Selectors (g_Spec new))
                   then (let exist' = exist\<lparr>g_Spec := (g_Spec exist)\<lparr>Selectors := Selectors (g_Spec new)\<rparr>\<rparr>;
                             (uerr, w2) = Update_gatewayPolicy exist' w1
                         in case uerr of
                              Some e \<Rightarrow> (Some e, w2)
                            | None \<Rightarrow> (None, Event (OnPolicy (p_key p)) ''Normal'' ''Updated'' w2))
                   else (None, w1))))"

text \<open>
  The literal \<^verbatim>\<open>service\<close> with the three labels written into it; the owner reference
  is set afterwards. In Go the labels map is the Policy's own map when that is not nil, so
  the three assignments also show in the local copy of the Policy; nothing reads the labels
  of that copy afterwards. The selector literal has two keys; written as two assignments it
  also covers keys that coincide.
\<close>

definition serviceNew :: "reconciler \<Rightarrow> HAEgressGatewayPolicy \<Rightarrow> Service" where
  "serviceNew r p =
     (let c = haegressip r;
          ns = serviceNamespace r p;
          labels1 = assign_map (p_Labels p) (KubernetesServiceProxyNameAnnotation c)
                      ''kubevip-managed-by-cilium-haegess'';
          labels2 = assign_map labels1 (HAEgressGatewayPolicyNamespace c) ns;
          labels3 = assign_map labels2 (HAEgressGatewayPolicyName c) (p_Name p)
      in \<lparr>s_Name = p_Name p, s_Namespace = ns, s_Labels = labels3,
          s_Annotations = p_Annotations p, s_OwnerReferences = [],
          s_Spec = \<lparr>LoadBalancerClass = Some (r_LoadBalancerClass r),
                    Ports = [\<lparr>PortName = ''nope'', Protocol = ''TCP'', Port = 65534\<rparr>],
                    ServiceType = ''LoadBalancer'',
                    Selector = assign_map (assign_map [] (HAEgressGatewayPolicyNamespace c) ns)
                                 (HAEgressGatewayPolicyName c) (p_Name p)\<rparr>,
          s_Ingress = []\<rparr>)"

definition UpdateOrCreateService ::
  "reconciler \<Rightarrow> HAEgressGatewayPolicy \<Rightarrow> world \<Rightarrow> err option \<times> world" where
  "UpdateOrCreateService r p w0 =
     (let (now, w') = time_Now w0;
          w = w'\<lparr>lastServiceUpdate := Some now\<rparr>;
          service0 = serviceNew r p
      in case SetControllerReference (Scheme r) p (s_Namespace service0) (s_OwnerReferences service0) of
           Inl e \<Rightarrow> (Some e, w)
         | Inr refs \<Rightarrow>
             (let service = service0\<lparr>s_OwnerReferences := refs\<rparr> in
              case Get_service \<lparr>Namespace = s_Namespace service, Name = s_Name service\<rparr> w of
                (Inl e, w1) \<Rightarrow>
                  (if IsNotFound e
                   then (let (cerr, w2) = Create_service service w1;
                             w3 = Event (OnPolicy (p_key p)) ''Normal'' ''Created'' w2
                         in (cerr, w3))
                   else (Some e, w1))
              | (Inr found, w1) \<Rightarrow>
                  (if \<not> IsControlledBy (s_OwnerReferences found) p
                   then (None, Event (OnPolicy (p_key p)) ''Warning'' ''AlreadyExists'' w1)
                   else if \<not> DeepEqual_map (Selector (s_Spec found)) (Selector (s_Spec service))
                   then Update_service service w1
                   else (None, w1))))"

definition Reconcile :: "reconciler \<Rightarrow> NamespacedName \<Rightarrow> world \<Rightarrow> (Result \<times> err option) \<times> world" where
  "Reconcile r req w =
     (case Get_policy req w of
        (Inl e, w1) \<Rightarrow>
          (if IsNotFound e then ((Result_empty, None), w1) else ((Result_empty, Some e), w1))
      | (Inr p, w1) \<Rightarrow>
          (case UpdateOrCreateCiliumEgressGatewayPolicy r p w1 of
             (Some e, w2) \<Rightarrow>
               ((\<lparr>RequeueAfter = HAEgressGatewayPolicyChcekRequeueAfter (haegressip r)\<rparr>, Some e), w2)
           | (None, w2) \<Rightarrow>
               (case UpdateOrCreateService r p w2 of
                  (Some e, w3) \<Rightarrow>
                    ((\<lparr>RequeueAfter = HAEgressGatewayPolicyChcekRequeueAfter (haegressip r)\<rparr>, Some e), w3)
                | (None, w3) \<Rightarrow> ((Result_empty, None), w3))))"

section \<open>The Background Sweeper\<close>

text \<open>
  Instants and durations are nanosecond counts. \<^verbatim>\<open>time.Duration\<close> is a 64-bit signed
  integer: the product \<^verbatim>\<open>time.Duration(n) * time.Second\<close> wraps around, and
  \<^verbatim>\<open>time.Since\<close> saturates at the ends of the range. \<^verbatim>\<open>r.BackgroundCheckerSeconds/2\<close>
  is Go's integer division, which truncates towards zero.
\<close>

definition wrap64 :: "int \<Rightarrow> int" where
  "wrap64 x = (x + 2 ^ 63) mod 2 ^ 64 - 2 ^ 63"

definition saturate64 :: "int \<Rightarrow> int" where
  "saturate64 x = max (- (2 ^ 63)) (min (2 ^ 63 - 1) x)"

definition go_quot :: "int \<Rightarrow> int \<Rightarrow> int" where
  "go_quot a b = (if (a < 0) = (b < 0) then \<bar>a\<bar> div \<bar>b\<bar> else - (\<bar>a\<bar> div \<bar>b\<bar>))"

definition Second :: int where
  "Second = 1000000000"

definition skip_threshold :: "reconciler \<Rightarrow> int" where
  "skip_threshold r = wrap64 (go_quot (BackgroundCheckerSeconds r) 2 * Second)"

definition time_Since :: "int \<Rightarrow> world \<Rightarrow> int \<times> world" where
  "time_Since t w = (let (now, w') = time_Now w in (saturate64 (now - t), w'))"

text \<open>The loop over \<^verbatim>\<open>policies.Items\<close>: both steps run for every Policy, errors are logged.\<close>

fun sweep_policies :: "reconciler \<Rightarrow> HAEgressGatewayPolicy list \<Rightarrow> world \<Rightarrow> world" where
  "sweep_policies r [] w = w"
| "sweep_policies r (policy # rest) w =
     (let (e1, w1) = UpdateOrCreateCiliumEgressGatewayPolicy r policy w;
          (e2, w2) = UpdateOrCreateService r policy w1
      in sweep_policies r rest w2)"

text \<open>One firing of the ticker in \<^verbatim>\<open>backgroundPeriodicalCheck\<close>.\<close>

definition sweep_tick :: "reconciler \<Rightarrow> world \<Rightarrow> world" where
  "sweep_tick r w =
     (case lastServiceUpdate w of
        Some lastUpdate \<Rightarrow>
          (let (since, w1) = time_Since lastUpdate w in
           if since < skip_threshold r then w1
           else (case List_policies w1 of
                   (Inl e, w2) \<Rightarrow> w2
                 | (Inr items, w2) \<Rightarrow> sweep_policies r items w2))
      | None \<Rightarrow>
          (let (now, w1) = time_Now w in w1\<lparr>lastServiceUpdate := Some now\<rparr>))"

text \<open>
  The loop of \<^verbatim>\<open>backgroundPeriodicalCheck\<close> runs until the context is cancelled;
  \<open>n\<close> is the number of times the ticker fires before that. \<^verbatim>\<open>SetupWithManager\<close>
  starts the loop only when \<^verbatim>\<open>BackgroundCheckerSeconds\<close> is positive.
\<close>

fun backgroundPeriodicalCheck :: "reconciler \<Rightarrow> nat \<Rightarrow> world \<Rightarrow> world" where
  "backgroundPeriodicalCheck r 0 w = w"
| "backgroundPeriodicalCheck r (Suc n) w = backgroundPeriodicalCheck r n (sweep_tick r w)"

section \<open>Vocabulary of the properties\<close>

text \<open>
  The state in which a Policy needs no repair: the GatewayPolicy under the deterministic
  name and the Service under the Policy's name in the target namespace both exist, are
  controlled by the Policy, and carry the selector the reconciler would write.
\<close>

definition in_sync :: "reconciler \<Rightarrow> HAEgressGatewayPolicy \<Rightarrow> world \<Rightarrow> bool" where
  "in_sync r p w \<longleftrightarrow>
     (case map_of (gatewayPolicies w) \<lparr>Namespace = [], Name = g_Name (ciliumEgressGatewayPolicyNew r p)\<rparr> of
        None \<Rightarrow> False
      | Some exist \<Rightarrow> IsControlledBy (g_OwnerReferences exist) p \<and>
          DeepEqual_Selectors (Selectors (g_Spec exist)) (Selectors (p_Spec p))) \<and>
     (case map_of (services w) \<lparr>Namespace = serviceNamespace r p, Name = p_Name p\<rparr> of
        None \<Rightarrow> False
      | Some found \<Rightarrow> IsControlledBy (s_OwnerReferences found) p \<and>
          DeepEqual_map (Selector (s_Spec found)) (Selector (s_Spec (serviceNew r p))))"

text \<open>
  \<open>extends w w'\<close>: the calls of \<open>w'\<close> continue those of \<open>w\<close>. \<open>reads_only w w'\<close>:
  between \<open>w\<close> and \<open>w'\<close> no write call was made, and the objects and the events are
  the same.
\<close>

definition extends :: "world \<Rightarrow> world \<Rightarrow> bool" where
  "extends w w' \<longleftrightarrow> trace w' = trace w @ calls_since w w'"

definition reads_only :: "world \<Rightarrow> world \<Rightarrow> bool" where
  "reads_only w w' \<longleftrightarrow>
     take (length (trace w)) (trace w') = trace w \<and>
     filter (\<lambda>c. is_write (fst c)) (calls_since w w') = [] \<and>
     gatewayPolicies w' = gatewayPolicies w \<and> services w' = services w \<and>
     policies w' = policies w \<and> events w' = events w"

definition outcome :: "err + 'a \<Rightarrow> err option" where
  "outcome x = (case x of Inl e \<Rightarrow> Some e | Inr y \<Rightarrow> None)"

text \<open>The warning that both steps of the Drift Reconciler record for a foreign object.\<close>

definition AlreadyExists_warning :: "HAEgressGatewayPolicy \<Rightarrow> event" where
  "AlreadyExists_warning p =
     \<lparr>ev_object = OnPolicy (p_key p), ev_type = ''Warning'', ev_reason = ''AlreadyExists''\<rparr>"

text \<open>The owner reference that the loop of the Feedback Synchronizer stops at.\<close>

fun first_policy_owner :: "OwnerReference list \<Rightarrow> OwnerReference option" where
  "first_policy_owner [] = None"
| "first_policy_owner (ref # refs) =
     (if Kind ref = ''HAEgressGatewayPolicy'' then Some ref else first_policy_owner refs)"


text \<open>
  The controller reference that \<^verbatim>\<open>SetControllerReference\<close> writes for a Policy, the
  GatewayPolicy that the Drift Reconciler sends to the store when it creates one, and the
  event it records then.
\<close>

definition controller_ref :: "string \<Rightarrow> HAEgressGatewayPolicy \<Rightarrow> OwnerReference" where
  "controller_ref apiVersion p =
     \<lparr>APIVersion = apiVersion, Kind = ''HAEgressGatewayPolicy'', RefName = p_Name p, UID = p_UID p,
      Controller = Some True, BlockOwnerDeletion = Some True\<rparr>"

definition created_gatewayPolicy :: "reconciler \<Rightarrow> string \<Rightarrow> HAEgressGatewayPolicy \<Rightarrow> CiliumEgressGatewayPolicy" where
  "created_gatewayPolicy r v p = (ciliumEgressGatewayPolicyNew r p)\<lparr>g_OwnerReferences := [controller_ref v p]\<rparr>"

definition Created_event :: "HAEgressGatewayPolicy \<Rightarrow> event" where
  "Created_event p = \<lparr>ev_object = OnPolicy (p_key p), ev_type = ''Normal'', ev_reason = ''Created''\<rparr>"

text \<open>
  The address of the GatewayPolicy stored under a key, and a store client none of whose
  calls fails for a reason of its own.
\<close>

definition stored_EgressIP :: "NamespacedName \<Rightarrow> world \<Rightarrow> string option" where
  "stored_EgressIP k w = map_option (\<lambda>g. EgressIP (Gateway (g_Spec g))) (map_of (gatewayPolicies w) k)"

definition no_faults :: "world \<Rightarrow> bool" where
  "no_faults w \<longleftrightarrow> (\<forall>n. \<not> faults w n)"

text \<open>
  The lookups of a Policy among the calls made between two states, and the property that
  each of them names the empty namespace.
\<close>

definition policy_lookups :: "world \<Rightarrow> world \<Rightarrow> api_call list" where
  "policy_lookups w w' = filter is_Get_Policy (map fst (calls_since w w'))"

definition lookups_unscoped :: "world \<Rightarrow> world \<Rightarrow> bool" where
  "lookups_unscoped w w' \<longleftrightarrow>
     extends w w' \<and>
     list_all (\<lambda>c. case c of Get_Policy k \<Rightarrow> Namespace k = [] | _ \<Rightarrow> True) (map fst (calls_since w w'))"

text \<open>
  \<open>grows w w'\<close>: from \<open>w\<close> to \<open>w'\<close> calls and events were only added, and every
  GatewayPolicy stored in \<open>w\<close> is still stored, whatever its content, in \<open>w'\<close>.
\<close>

definition grows :: "world \<Rightarrow> world \<Rightarrow> bool" where
  "grows w w' \<longleftrightarrow>
     extends w w' \<and> take (length (events w)) (events w') = events w \<and>
     (\<forall>k. map_of (gatewayPolicies w) k \<noteq> None \<longrightarrow> map_of (gatewayPolicies w') k \<noteq> None)"

section \<open>A concrete cluster\<close>

text \<open>
  The scenario of the specification: Policy \<^verbatim>\<open>web\<close>, its GatewayPolicy
  \<^verbatim>\<open>egress-system-web\<close> and its Service \<^verbatim>\<open>web\<close> in namespace
  \<^verbatim>\<open>egress-system\<close>, to which the allocator has given the address \<^verbatim>\<open>10.0.0.5\<close>
  on node \<^verbatim>\<open>node-3\<close>. The theorems below are instantiated on it.
\<close>

definition ex_consts :: haegressip_consts where
  "ex_consts =
     \<lparr>HAEgressGatewayPolicyNamespace = ''haegress/namespace'',
      HAEgressGatewayPolicyName = ''haegress/name'',
      KubernetesServiceProxyNameAnnotation = ''service-proxy-name'',
      NodeNameAnnotation = ''hostname'',
      KubeVIPVipHostAnnotation = ''vipHost'',
      EventEgressUpdateReason = ''Updated'',
      HAEgressGatewayPolicyChcekRequeueAfter = 30 * Second,
      LeaseCheckRequeueAfter = 5 * Second\<rparr>"

definition ex_reconciler :: reconciler where
  "ex_reconciler =
     \<lparr>EgressNamespace = ''egress-system'', r_LoadBalancerClass = ''kube-vip'',
      BackgroundCheckerSeconds = 60, Scheme = Some ''cilium.angeloxx.ch/v2'',
      haegressip = ex_consts\<rparr>"

definition ex_spec :: CiliumEgressGatewayPolicySpec where
  "ex_spec =
     \<lparr>Selectors = Some [\<lparr>NamespaceSelector = None,
                          PodSelector = Some \<lparr>MatchLabels = Some [(''app'', ''web'')],
                                                 MatchExpressions = None\<rparr>\<rparr>],
      DestinationCIDRs = [''0.0.0.0/0''], ExcludedCIDRs = [],
      Gateway = \<lparr>NodeSelector_MatchLabels = [(''hostname'', '''')], EgressIP = ''''\<rparr>\<rparr>"

definition ex_policy :: HAEgressGatewayPolicy where
  "ex_policy =
     \<lparr>p_Name = ''web'', p_Namespace = '''', p_UID = ''uid-web'', p_Labels = [], p_Annotations = [],
      p_Spec = ex_spec,
      p_Status = \<lparr>IPAddress = '''', ExitNode = '''', LastModifiedTime = 0\<rparr>\<rparr>"

definition ex_ref :: OwnerReference where
  "ex_ref =
     \<lparr>APIVersion = ''cilium.angeloxx.ch/v2'', Kind = ''HAEgressGatewayPolicy'', RefName = ''web'',
      UID = ''uid-web'', Controller = Some True, BlockOwnerDeletion = Some True\<rparr>"

definition ex_gatewayPolicy :: CiliumEgressGatewayPolicy where
  "ex_gatewayPolicy =
     \<lparr>g_Name = ''egress-system-web'', g_Namespace = '''', g_Labels = [], g_Annotations = [],
      g_OwnerReferences = [ex_ref], g_Spec = ex_spec\<rparr>"

definition ex_service :: Service where
  "ex_service =
     \<lparr>s_Name = ''web'', s_Namespace = ''egress-system'',
      s_Labels = [(''service-proxy-name'', ''kubevip-managed-by-cilium-haegess''),
                  (''haegress/namespace'', ''egress-system''), (''haegress/name'', ''web'')],
      s_Annotations = [(''vipHost'', ''node-3'')],
      s_OwnerReferences = [ex_ref],
      s_Spec = \<lparr>LoadBalancerClass = Some ''kube-vip'',
                Ports = [\<lparr>PortName = ''nope'', Protocol = ''TCP'', Port = 65534\<rparr>],
                ServiceType = ''LoadBalancer'',
                Selector = [(''haegress/namespace'', ''egress-system''), (''haegress/name'', ''web'')]\<rparr>,
      s_Ingress = [''10.0.0.5'']\<rparr>"

definition ex_world :: world where
  "ex_world =
     \<lparr>policies = [(\<lparr>Namespace = '''', Name = ''web''\<rparr>, ex_policy)],
      gatewayPolicies = [(\<lparr>Namespace = '''', Name = ''egress-system-web''\<rparr>, ex_gatewayPolicy)],
      services = [(\<lparr>Namespace = ''egress-system'', Name = ''web''\<rparr>, ex_service)],
      faults = (\<lambda>n. False), trace = [], events = [],
      clock = (\<lambda>n. int n * Second), clockReads = 0, lastServiceUpdate = None\<rparr>"

definition two_owner_service :: Service where
  "two_owner_service = ex_service\<lparr>s_OwnerReferences :=
      [ex_ref, \<lparr>APIVersion = ''cilium.angeloxx.ch/v2'', Kind = ''HAEgressGatewayPolicy'', RefName = ''api'',
                UID = ''uid-api'', Controller = None, BlockOwnerDeletion = None\<rparr>]\<rparr>"

text \<open>The cluster with the activity marker set at instant 0 and the clock standing at \<open>t\<close>.\<close>

definition ex_marked :: "int \<Rightarrow> world" where
  "ex_marked t = ex_world\<lparr>lastServiceUpdate := Some 0, clock := (\<lambda>n. t)\<rparr>"

text \<open>The same cluster with derived objects that carry no owner reference.\<close>

definition ex_foreign_world :: world where
  "ex_foreign_world =
     ex_world\<lparr>gatewayPolicies := [(\<lparr>Namespace = '''', Name = ''egress-system-web''\<rparr>,
                                       ex_gatewayPolicy\<lparr>g_OwnerReferences := []\<rparr>)],
               services := [(\<lparr>Namespace = ''egress-system'', Name = ''web''\<rparr>,
                                ex_service\<lparr>s_OwnerReferences := []\<rparr>)]\<rparr>"


definition ex_without_gateway :: world where
  "ex_without_gateway = ex_world\<lparr>gatewayPolicies := []\<rparr>"

definition ex_drifted :: world where
  "ex_drifted =
     ex_world\<lparr>services := [(\<lparr>Namespace = ''egress-system'', Name = ''web''\<rparr>,
                   ex_service\<lparr>s_Spec := (s_Spec ex_service)\<lparr>Selector := [(''haegress/name'', ''old'')]\<rparr>\<rparr>)]\<rparr>"


definition ex_slow_clock :: world where
  "ex_slow_clock = ex_world\<lparr>clock := (\<lambda>n. int n * (60 * Second))\<rparr>"

text \<open>A cluster that holds the Policy only.\<close>

definition ex_fresh :: world where
  "ex_fresh = ex_world\<lparr>gatewayPolicies := [], services := []\<rparr>"

section \<open>Properties of the Event Router\<close>

lemma findObjects_loop_eq:
  "findObjects_loop obj refs acc =
     acc @ map (\<lambda>r. \<lparr>Namespace = GetNamespace obj, Name = RefName r\<rparr>)
             (filter (\<lambda>r. Kind r = ''HAEgressGatewayPolicy'') refs)"
  by (induction refs arbitrary: acc) simp_all

text \<open>
  Claim C5, as amended. The Event Router emits one reconcile request for every owner
  reference of kind Policy, in the order of the list, each carrying that reference's name
  and the watched object's namespace: none when no such reference is present, exactly one
  when exactly one is present, and several when several are.
\<close>

theorem C5_one_request_per_policy_owner:
  "findObjectsForHaegressGatewayPolicy obj =
     map (\<lambda>ref. \<lparr>Namespace = GetNamespace obj, Name = RefName ref\<rparr>)
       (filter (\<lambda>ref. Kind ref = ''HAEgressGatewayPolicy'') (GetOwnerReferences obj))"
  by (simp add: findObjectsForHaegressGatewayPolicy_def findObjects_loop_eq)

theorem C5_one_request_per_policy_owner_witness:
  "findObjectsForHaegressGatewayPolicy (ServiceObject ex_service) = [\<lparr>Namespace = ''egress-system'', Name = ''web''\<rparr>]"
  using C5_one_request_per_policy_owner[of "ServiceObject ex_service"]
  by (simp add: ex_service_def ex_ref_def)

text \<open>
  Claim C5 as stated (never more than one request) fails for a Service that lists two
  owner references of kind Policy.
\<close>

theorem C5_counterexample:
  "findObjectsForHaegressGatewayPolicy (ServiceObject two_owner_service) =
     [\<lparr>Namespace = ''egress-system'', Name = ''web''\<rparr>, \<lparr>Namespace = ''egress-system'', Name = ''api''\<rparr>]
   \<and> \<not> length (findObjectsForHaegressGatewayPolicy (ServiceObject two_owner_service)) \<le> 1"
  by (simp add: findObjectsForHaegressGatewayPolicy_def two_owner_service_def ex_service_def ex_ref_def)

text \<open>
  Claim C8. On both watches a delete event passes the filter and enqueues a reconcile
  request for the Policy named by each owner reference of kind Policy; a create, an update
  or a generic event is filtered out and enqueues nothing.
\<close>

theorem C8_only_delete_triggers:
  "watch_predicate (DeleteEvent obj)
   \<and> enqueued (DeleteEvent obj) =
       remdups (map (\<lambda>ref. \<lparr>Namespace = GetNamespace obj, Name = RefName ref\<rparr>)
                  (filter (\<lambda>ref. Kind ref = ''HAEgressGatewayPolicy'') (GetOwnerReferences obj)))
   \<and> \<not> watch_predicate (CreateEvent obj) \<and> enqueued (CreateEvent obj) = []
   \<and> \<not> watch_predicate (UpdateEvent old obj) \<and> enqueued (UpdateEvent old obj) = []
   \<and> \<not> watch_predicate (GenericEvent obj) \<and> enqueued (GenericEvent obj) = []"
  by (simp add: enqueued_def findObjectsForHaegressGatewayPolicy_def findObjects_loop_eq)

theorem C8_only_delete_triggers_witness:
  "\<lparr>Namespace = '''', Name = ''web''\<rparr> \<in> set (enqueued (DeleteEvent (GatewayPolicyObject ex_gatewayPolicy)))
   \<and> enqueued (UpdateEvent (GatewayPolicyObject ex_gatewayPolicy) (GatewayPolicyObject ex_gatewayPolicy)) = []"
  using C8_only_delete_triggers[of "GatewayPolicyObject ex_gatewayPolicy" "GatewayPolicyObject ex_gatewayPolicy"]
  by (simp add: ex_gatewayPolicy_def ex_ref_def)

section \<open>Store client: what each call leaves unchanged\<close>

lemmas prim_defs = client_Get_def Get_policy_def Get_gatewayPolicy_def Get_service_def
  List_policies_def Create_gatewayPolicy_def Update_gatewayPolicy_def Patch_gatewayPolicy_def
  Create_service_def Update_service_def StatusUpdate_policy_def logged_def Event_def time_Now_def
  fault_injected_def

lemma Get_frame [simp]:
  "services (snd (Get_policy k w)) = services w"
  "services (snd (Get_gatewayPolicy k w)) = services w"
  "services (snd (Get_service k w)) = services w"
  "gatewayPolicies (snd (Get_policy k w)) = gatewayPolicies w"
  "gatewayPolicies (snd (Get_gatewayPolicy k w)) = gatewayPolicies w"
  "gatewayPolicies (snd (Get_service k w)) = gatewayPolicies w"
  "policies (snd (Get_policy k w)) = policies w"
  "policies (snd (Get_gatewayPolicy k w)) = policies w"
  "policies (snd (Get_service k w)) = policies w"
  by (simp_all add: prim_defs split: option.splits)

lemma write_frame [simp]:
  "services (snd (Create_gatewayPolicy g w)) = services w"
  "services (snd (Update_gatewayPolicy g w)) = services w"
  "services (snd (Patch_gatewayPolicy g l v w)) = services w"
  "services (snd (StatusUpdate_policy p w)) = services w"
  "gatewayPolicies (snd (Create_service s w)) = gatewayPolicies w"
  "gatewayPolicies (snd (Update_service s w)) = gatewayPolicies w"
  "gatewayPolicies (snd (StatusUpdate_policy p w)) = gatewayPolicies w"
  "policies (snd (Create_service s w)) = policies w"
  "policies (snd (Update_service s w)) = policies w"
  "policies (snd (Create_gatewayPolicy g w)) = policies w"
  "policies (snd (Update_gatewayPolicy g w)) = policies w"
  "policies (snd (Patch_gatewayPolicy g l v w)) = policies w"
  by (simp_all add: prim_defs Let_def split: option.splits)

lemma misc_frame [simp]:
  "services (snd (time_Now w)) = services w"
  "gatewayPolicies (snd (time_Now w)) = gatewayPolicies w"
  "policies (snd (time_Now w)) = policies w"
  "services (Event obj ty reason w) = services w"
  "gatewayPolicies (Event obj ty reason w) = gatewayPolicies w"
  "policies (Event obj ty reason w) = policies w"
  by (simp_all add: prim_defs)

lemma Sync_owner_services [simp]:
  "services (snd (Sync_owner ns refs hp w)) = services w"
  by (induction refs) (simp_all add: case_prod_beta split: sum.splits)

lemma Sync_owner_gatewayPolicies [simp]:
  "gatewayPolicies (snd (Sync_owner ns refs hp w)) = gatewayPolicies w"
  by (induction refs) (simp_all add: case_prod_beta split: sum.splits)

lemma Sync_address_services [simp]:
  "services (snd (Sync_address c service g hp w)) = services w"
  by (simp add: Sync_address_def Let_def case_prod_beta split: list.splits sum.splits)

lemma Sync_node_services [simp]:
  "services (snd (Sync_node c service g ph ch hp w)) = services w"
  by (simp add: Sync_node_def Let_def case_prod_beta split: option.splits)

lemma Sync_services [simp]:
  "services (snd (SyncServiceWithCiliumEgressGatewayPolicy c service g w)) = services w"
  by (simp add: SyncServiceWithCiliumEgressGatewayPolicy_def Let_def case_prod_beta split: option.splits sum.splits)

lemma UpdateOrCreateCiliumEgressGatewayPolicy_services:
  "services (snd (UpdateOrCreateCiliumEgressGatewayPolicy r p w)) = services w"
  by (simp add: UpdateOrCreateCiliumEgressGatewayPolicy_def Let_def case_prod_beta split: sum.splits option.splits)

lemma UpdateOrCreateService_gatewayPolicies:
  "gatewayPolicies (snd (UpdateOrCreateService r p w)) = gatewayPolicies w"
  by (simp add: UpdateOrCreateService_def  Let_def case_prod_beta split: sum.splits option.splits)

section \<open>Idempotence of the Drift Reconciler\<close>

lemma reads_only_refl: "reads_only w w"
  by (simp add: reads_only_def calls_since_def)

lemma reads_only_trans:
  assumes "reads_only a b" and "reads_only b c"
  shows "reads_only a c"
proof -
  obtain xs where xs: "trace b = trace a @ xs" and nx: "filter (\<lambda>c. is_write (fst c)) xs = []"
    using assms(1) unfolding reads_only_def calls_since_def
    by (metis append_take_drop_id)
  obtain ys where ys: "trace c = trace b @ ys" and ny: "filter (\<lambda>c. is_write (fst c)) ys = []"
    using assms(2) unfolding reads_only_def calls_since_def
    by (metis append_take_drop_id)
  show ?thesis
    using assms xs ys nx ny by (simp add: reads_only_def calls_since_def)
qed

lemma in_sync_cong:
  "gatewayPolicies w' = gatewayPolicies w \<Longrightarrow> services w' = services w \<Longrightarrow> in_sync r p w' = in_sync r p w"
  by (simp add: in_sync_def)

lemma in_syncD:
  assumes "in_sync r p w"
  obtains exist found where
    "map_of (gatewayPolicies w) \<lparr>Namespace = [], Name = g_Name (ciliumEgressGatewayPolicyNew r p)\<rparr> = Some exist"
    "IsControlledBy (g_OwnerReferences exist) p"
    "DeepEqual_Selectors (Selectors (g_Spec exist)) (Selectors (p_Spec p))"
    "map_of (services w) \<lparr>Namespace = serviceNamespace r p, Name = p_Name p\<rparr> = Some found"
    "IsControlledBy (s_OwnerReferences found) p"
    "DeepEqual_map (Selector (s_Spec found)) (Selector (s_Spec (serviceNew r p)))"
  using assms unfolding in_sync_def by (auto split: option.splits)

lemma Get_policy_reads_only: "reads_only w (snd (Get_policy k w))"
  by (simp add: reads_only_def calls_since_def prim_defs split: option.splits)

lemma G_step_in_sync:
  assumes "in_sync r p w"
  shows "reads_only w (snd (UpdateOrCreateCiliumEgressGatewayPolicy r p w))"
proof -
  from assms obtain exist where
    "map_of (gatewayPolicies w) \<lparr>Namespace = [], Name = g_Name (ciliumEgressGatewayPolicyNew r p)\<rparr> = Some exist"
    "IsControlledBy (g_OwnerReferences exist) p"
    "DeepEqual_Selectors (Selectors (g_Spec exist)) (Selectors (p_Spec p))"
    by (rule in_syncD)
  then show ?thesis
    by (simp add: reads_only_def UpdateOrCreateCiliumEgressGatewayPolicy_def Let_def case_prod_beta
      ciliumEgressGatewayPolicyNew_def calls_since_def prim_defs IsNotFound_def
      split: sum.splits)
qed

lemma S_step_in_sync:
  assumes "in_sync r p w"
  shows "reads_only w (snd (UpdateOrCreateService r p w))"
proof -
  from assms obtain found where
    "map_of (services w) \<lparr>Namespace = serviceNamespace r p, Name = p_Name p\<rparr> = Some found"
    "IsControlledBy (s_OwnerReferences found) p"
    "DeepEqual_map (Selector (s_Spec found)) (Selector (s_Spec (serviceNew r p)))"
    by (rule in_syncD)
  then show ?thesis
    by (simp add: reads_only_def UpdateOrCreateService_def Let_def case_prod_beta
      serviceNew_def calls_since_def prim_defs IsNotFound_def
      split: sum.splits)
qed

lemma Get_policy_found:
  "map_of (policies w) req = Some p \<Longrightarrow>
     fst (Get_policy req w) = Inr p \<or> fst (Get_policy req w) = Inl StoreFailure"
  by (simp add: prim_defs)

lemma steps_in_sync:
  assumes "in_sync r p w"
  shows "reads_only w (snd (UpdateOrCreateCiliumEgressGatewayPolicy r p w))"
    and "reads_only w (snd (UpdateOrCreateService r p (snd (UpdateOrCreateCiliumEgressGatewayPolicy r p w))))"
proof -
  let ?w1 = "snd (UpdateOrCreateCiliumEgressGatewayPolicy r p w)"
  show a: "reads_only w ?w1" by (rule G_step_in_sync[OF assms])
  then have "in_sync r p ?w1" using assms in_sync_cong[of ?w1 w r p] by (simp add: reads_only_def)
  then have "reads_only ?w1 (snd (UpdateOrCreateService r p ?w1))" by (rule S_step_in_sync)
  with a show "reads_only w (snd (UpdateOrCreateService r p ?w1))" by (rule reads_only_trans)
qed

lemma Reconcile_in_sync:
  assumes pol: "map_of (policies w) req = Some p" and sync: "in_sync r p w"
  shows "reads_only w (snd (Reconcile r req w))"
proof -
  let ?w1 = "snd (Get_policy req w)"
  have r1: "reads_only w ?w1" by (rule Get_policy_reads_only)
  then have s1: "in_sync r p ?w1" using sync in_sync_cong[of ?w1 w r p] by (simp add: reads_only_def)
  let ?w2 = "snd (UpdateOrCreateCiliumEgressGatewayPolicy r p ?w1)"
  let ?w3 = "snd (UpdateOrCreateService r p ?w2)"
  have r2: "reads_only w ?w2" using r1 steps_in_sync(1)[OF s1] by (rule reads_only_trans)
  have r3: "reads_only w ?w3" using r1 steps_in_sync(2)[OF s1] by (rule reads_only_trans)
  from Get_policy_found[OF pol] show ?thesis
  proof
    assume "fst (Get_policy req w) = Inr p"
    then show ?thesis using r2 r3
      by (simp add: Reconcile_def case_prod_beta split: option.splits)
  next
    assume "fst (Get_policy req w) = Inl StoreFailure"
    then show ?thesis using r1
      by (simp add: Reconcile_def case_prod_beta IsNotFound_def)
  qed
qed

lemmas ex_defs = ex_consts_def ex_reconciler_def ex_spec_def ex_policy_def ex_ref_def
  ex_gatewayPolicy_def ex_service_def ex_world_def

lemma ex_in_sync: "in_sync ex_reconciler ex_policy ex_world"
  by (simp add: in_sync_def ex_defs ciliumEgressGatewayPolicyNew_def serviceNamespace_def serviceNew_def
      index_map_def assign_map_def IsControlledBy_def DeepEqual_map_def DeepEqual_rule_def
      DeepEqual_LabelSelector_def Let_def)

text \<open>
  Claim C1. When the Policy is stored under the request's key and both derived objects
  exist, are controlled by the Policy and carry the desired selectors, a second run of
  the Drift Reconciler right after a first one makes no create, update or patch call on
  the store, whichever calls the store lets fail, and the objects are those of the start.
\<close>

theorem C1_second_run_writes_nothing:
  assumes pol: "map_of (policies w) req = Some p" and sync: "in_sync r p w"
    and run1: "w1 = snd (Reconcile r req w)" and run2: "w2 = snd (Reconcile r req w1)"
  shows "filter (\<lambda>c. is_write (fst c)) (calls_since w1 w2) = []
       \<and> gatewayPolicies w2 = gatewayPolicies w \<and> services w2 = services w \<and> policies w2 = policies w"
proof -
  have first: "reads_only w w1"
    using Reconcile_in_sync[OF pol sync] run1 by simp
  then have pol1: "map_of (policies w1) req = Some p" and sync1: "in_sync r p w1"
    using pol sync by (simp_all add: in_sync_def reads_only_def)
  show ?thesis using Reconcile_in_sync[OF pol1 sync1] first run2 by (simp add: reads_only_def)
qed

theorem C1_second_run_writes_nothing_witness:
  "map_of (policies ex_world) \<lparr>Namespace = '''', Name = ''web''\<rparr> = Some ex_policy
   \<and> in_sync ex_reconciler ex_policy ex_world
   \<and> filter (\<lambda>c. is_write (fst c))
        (calls_since (snd (Reconcile ex_reconciler \<lparr>Namespace = '''', Name = ''web''\<rparr> ex_world))
           (snd (Reconcile ex_reconciler \<lparr>Namespace = '''', Name = ''web''\<rparr>
                   (snd (Reconcile ex_reconciler \<lparr>Namespace = '''', Name = ''web''\<rparr> ex_world))))) = []"
proof -
  have p: "map_of (policies ex_world) \<lparr>Namespace = '''', Name = ''web''\<rparr> = Some ex_policy"
    by (simp add: ex_world_def)
  show ?thesis
    using C1_second_run_writes_nothing[OF p ex_in_sync refl refl] p ex_in_sync by simp
qed

section \<open>Objects the Policy does not control\<close>

lemma G_step_foreign:
  assumes "map_of (gatewayPolicies w) \<lparr>Namespace = [], Name = g_Name (ciliumEgressGatewayPolicyNew r p)\<rparr> = Some exist"
    and "\<not> IsControlledBy (g_OwnerReferences exist) p"
  shows "gatewayPolicies (snd (UpdateOrCreateCiliumEgressGatewayPolicy r p w)) = gatewayPolicies w"
    and "filter (\<lambda>c. is_write (fst c)) (calls_since w (snd (UpdateOrCreateCiliumEgressGatewayPolicy r p w))) = []"
    and "(Get_GatewayPolicy \<lparr>Namespace = [], Name = g_Name (ciliumEgressGatewayPolicyNew r p)\<rparr>, None)
           \<in> set (calls_since w (snd (UpdateOrCreateCiliumEgressGatewayPolicy r p w))) \<longrightarrow>
         fst (UpdateOrCreateCiliumEgressGatewayPolicy r p w) = None \<and>
         events (snd (UpdateOrCreateCiliumEgressGatewayPolicy r p w)) = events w @ [AlreadyExists_warning p]"
  using assms
  by (simp_all add: UpdateOrCreateCiliumEgressGatewayPolicy_def Let_def case_prod_beta AlreadyExists_warning_def
      ciliumEgressGatewayPolicyNew_def calls_since_def prim_defs IsNotFound_def
      split: sum.splits)

lemma S_step_foreign:
  assumes "map_of (services w) \<lparr>Namespace = serviceNamespace r p, Name = p_Name p\<rparr> = Some found"
    and "\<not> IsControlledBy (s_OwnerReferences found) p"
  shows "services (snd (UpdateOrCreateService r p w)) = services w"
    and "filter (\<lambda>c. is_write (fst c)) (calls_since w (snd (UpdateOrCreateService r p w))) = []"
    and "(Get_Service \<lparr>Namespace = serviceNamespace r p, Name = p_Name p\<rparr>, None)
           \<in> set (calls_since w (snd (UpdateOrCreateService r p w))) \<longrightarrow>
         fst (UpdateOrCreateService r p w) = None \<and>
         events (snd (UpdateOrCreateService r p w)) = events w @ [AlreadyExists_warning p]"
  using assms
  by (simp_all add: UpdateOrCreateService_def Let_def case_prod_beta AlreadyExists_warning_def
      serviceNew_def calls_since_def prim_defs IsNotFound_def
      split: sum.splits)

lemma Reconcile_gatewayPolicies_foreign:
  assumes pol: "map_of (policies w) req = Some p"
    and g: "map_of (gatewayPolicies w) \<lparr>Namespace = [], Name = g_Name (ciliumEgressGatewayPolicyNew r p)\<rparr> = Some exist"
    and f: "\<not> IsControlledBy (g_OwnerReferences exist) p"
  shows "gatewayPolicies (snd (Reconcile r req w)) = gatewayPolicies w"
proof -
  let ?w1 = "snd (Get_policy req w)"
  have g1: "map_of (gatewayPolicies ?w1) \<lparr>Namespace = [], Name = g_Name (ciliumEgressGatewayPolicyNew r p)\<rparr> = Some exist"
    using g by simp
  have a: "gatewayPolicies (snd (UpdateOrCreateCiliumEgressGatewayPolicy r p ?w1)) = gatewayPolicies w"
    using G_step_foreign(1)[OF g1 f] by simp
  from Get_policy_found[OF pol] show ?thesis
  proof
    assume "fst (Get_policy req w) = Inr p"
    then show ?thesis using a
      by (simp add: Reconcile_def case_prod_beta UpdateOrCreateService_gatewayPolicies split: option.splits)
  next
    assume "fst (Get_policy req w) = Inl StoreFailure"
    then show ?thesis
      by (simp add: Reconcile_def case_prod_beta IsNotFound_def)
  qed
qed

lemma Reconcile_services_foreign:
  assumes pol: "map_of (policies w) req = Some p"
    and s: "map_of (services w) \<lparr>Namespace = serviceNamespace r p, Name = p_Name p\<rparr> = Some found"
    and f: "\<not> IsControlledBy (s_OwnerReferences found) p"
  shows "services (snd (Reconcile r req w)) = services w"
proof -
  let ?w1 = "snd (Get_policy req w)"
  let ?w2 = "snd (UpdateOrCreateCiliumEgressGatewayPolicy r p ?w1)"
  have s2: "services ?w2 = services w"
    by (simp add: UpdateOrCreateCiliumEgressGatewayPolicy_services)
  then have "map_of (services ?w2) \<lparr>Namespace = serviceNamespace r p, Name = p_Name p\<rparr> = Some found"
    using s by simp
  then have a: "services (snd (UpdateOrCreateService r p ?w2)) = services w"
    using S_step_foreign(1)[OF _ f] s2 by simp
  from Get_policy_found[OF pol] show ?thesis
  proof
    assume "fst (Get_policy req w) = Inr p"
    then show ?thesis using a s2
      by (simp add: Reconcile_def case_prod_beta split: option.splits)
  next
    assume "fst (Get_policy req w) = Inl StoreFailure"
    then show ?thesis
      by (simp add: Reconcile_def case_prod_beta IsNotFound_def)
  qed
qed

text \<open>
  Claim C2. When the GatewayPolicy (respectively the Service) stored under the expected
  name is not controlled by the Policy, the step of the Drift Reconciler for it leaves the
  stored objects as they are and makes no write call; once its lookup has returned the
  object, it returns no error and records one warning event on the Policy; and a whole
  run of the reconciler for that Policy leaves the collection holding the foreign object
  unchanged.
\<close>

theorem C2_foreign_objects_not_written:
  "(map_of (gatewayPolicies w) \<lparr>Namespace = [], Name = g_Name (ciliumEgressGatewayPolicyNew r p)\<rparr> = Some exist
      \<and> \<not> IsControlledBy (g_OwnerReferences exist) p \<longrightarrow>
      gatewayPolicies (snd (UpdateOrCreateCiliumEgressGatewayPolicy r p w)) = gatewayPolicies w
      \<and> filter (\<lambda>c. is_write (fst c)) (calls_since w (snd (UpdateOrCreateCiliumEgressGatewayPolicy r p w))) = []
      \<and> ((Get_GatewayPolicy \<lparr>Namespace = [], Name = g_Name (ciliumEgressGatewayPolicyNew r p)\<rparr>, None)
             \<in> set (calls_since w (snd (UpdateOrCreateCiliumEgressGatewayPolicy r p w))) \<longrightarrow>
           fst (UpdateOrCreateCiliumEgressGatewayPolicy r p w) = None \<and>
           events (snd (UpdateOrCreateCiliumEgressGatewayPolicy r p w)) = events w @ [AlreadyExists_warning p])
      \<and> (map_of (policies w) req = Some p \<longrightarrow>
           gatewayPolicies (snd (Reconcile r req w)) = gatewayPolicies w))
   \<and> (map_of (services w) \<lparr>Namespace = serviceNamespace r p, Name = p_Name p\<rparr> = Some found
      \<and> \<not> IsControlledBy (s_OwnerReferences found) p \<longrightarrow>
      services (snd (UpdateOrCreateService r p w)) = services w
      \<and> filter (\<lambda>c. is_write (fst c)) (calls_since w (snd (UpdateOrCreateService r p w))) = []
      \<and> ((Get_Service \<lparr>Namespace = serviceNamespace r p, Name = p_Name p\<rparr>, None)
             \<in> set (calls_since w (snd (UpdateOrCreateService r p w))) \<longrightarrow>
           fst (UpdateOrCreateService r p w) = None \<and>
           events (snd (UpdateOrCreateService r p w)) = events w @ [AlreadyExists_warning p])
      \<and> (map_of (policies w) req = Some p \<longrightarrow>
           services (snd (Reconcile r req w)) = services w))"
  using G_step_foreign[of w r p exist] S_step_foreign[of w r p found]
    Reconcile_gatewayPolicies_foreign[of w req p r exist] Reconcile_services_foreign[of w req p r found]
  by blast

lemma ex_foreign_G_run:
  "calls_since ex_foreign_world (snd (UpdateOrCreateCiliumEgressGatewayPolicy ex_reconciler ex_policy ex_foreign_world))
     = [(Get_GatewayPolicy \<lparr>Namespace = [], Name = ''egress-system-web''\<rparr>, None)]"
  by (simp add: UpdateOrCreateCiliumEgressGatewayPolicy_def ex_foreign_world_def ex_defs prim_defs
      ciliumEgressGatewayPolicyNew_def serviceNamespace_def index_map_def SetControllerReference_def
      validateOwner_def IsControlledBy_def calls_since_def Let_def)

lemma ex_foreign_S_run:
  "calls_since ex_foreign_world (snd (UpdateOrCreateService ex_reconciler ex_policy ex_foreign_world))
     = [(Get_Service \<lparr>Namespace = ''egress-system'', Name = ''web''\<rparr>, None)]"
  by (simp add: UpdateOrCreateService_def ex_foreign_world_def ex_defs prim_defs
      serviceNew_def serviceNamespace_def index_map_def SetControllerReference_def
      validateOwner_def IsControlledBy_def calls_since_def Let_def)

theorem C2_foreign_objects_not_written_witness:
  "map_of (gatewayPolicies ex_foreign_world) \<lparr>Namespace = [], Name = ''egress-system-web''\<rparr>
     = Some (ex_gatewayPolicy\<lparr>g_OwnerReferences := []\<rparr>)
   \<and> \<not> IsControlledBy (g_OwnerReferences (ex_gatewayPolicy\<lparr>g_OwnerReferences := []\<rparr>)) ex_policy
   \<and> fst (UpdateOrCreateCiliumEgressGatewayPolicy ex_reconciler ex_policy ex_foreign_world) = None
   \<and> events (snd (UpdateOrCreateCiliumEgressGatewayPolicy ex_reconciler ex_policy ex_foreign_world))
        = [AlreadyExists_warning ex_policy]
   \<and> gatewayPolicies (snd (Reconcile ex_reconciler \<lparr>Namespace = [], Name = ''web''\<rparr> ex_foreign_world))
        = gatewayPolicies ex_foreign_world
   \<and> map_of (services ex_foreign_world) \<lparr>Namespace = ''egress-system'', Name = ''web''\<rparr>
     = Some (ex_service\<lparr>s_OwnerReferences := []\<rparr>)
   \<and> \<not> IsControlledBy (s_OwnerReferences (ex_service\<lparr>s_OwnerReferences := []\<rparr>)) ex_policy
   \<and> fst (UpdateOrCreateService ex_reconciler ex_policy ex_foreign_world) = None
   \<and> events (snd (UpdateOrCreateService ex_reconciler ex_policy ex_foreign_world))
        = [AlreadyExists_warning ex_policy]
   \<and> services (snd (Reconcile ex_reconciler \<lparr>Namespace = [], Name = ''web''\<rparr> ex_foreign_world))
        = services ex_foreign_world"
proof -
  have n: "g_Name (ciliumEgressGatewayPolicyNew ex_reconciler ex_policy) = ''egress-system-web''"
    "serviceNamespace ex_reconciler ex_policy = ''egress-system''" "p_Name ex_policy = ''web''"
    by (simp_all add: ciliumEgressGatewayPolicyNew_def serviceNamespace_def index_map_def ex_defs)
  have st: "map_of (gatewayPolicies ex_foreign_world) \<lparr>Namespace = [], Name = ''egress-system-web''\<rparr>
     = Some (ex_gatewayPolicy\<lparr>g_OwnerReferences := []\<rparr>)"
    "map_of (services ex_foreign_world) \<lparr>Namespace = ''egress-system'', Name = ''web''\<rparr>
     = Some (ex_service\<lparr>s_OwnerReferences := []\<rparr>)"
    by (simp_all add: ex_foreign_world_def ex_world_def)
  have f: "\<not> IsControlledBy (g_OwnerReferences (ex_gatewayPolicy\<lparr>g_OwnerReferences := []\<rparr>)) ex_policy"
    "\<not> IsControlledBy (s_OwnerReferences (ex_service\<lparr>s_OwnerReferences := []\<rparr>)) ex_policy"
    by (simp_all add: IsControlledBy_def)
  have p: "map_of (policies ex_foreign_world) \<lparr>Namespace = [], Name = ''web''\<rparr> = Some ex_policy"
    by (simp add: ex_foreign_world_def ex_world_def)
  have e: "events ex_foreign_world = []" by (simp add: ex_foreign_world_def ex_world_def)
  show ?thesis
    using C2_foreign_objects_not_written[of ex_foreign_world ex_reconciler ex_policy
        "ex_gatewayPolicy\<lparr>g_OwnerReferences := []\<rparr>" "\<lparr>Namespace = [], Name = ''web''\<rparr>"
        "ex_service\<lparr>s_OwnerReferences := []\<rparr>"]
      n st f p e ex_foreign_G_run ex_foreign_S_run
    by simp
qed

section \<open>The calls made by the Feedback Synchronizer\<close>

lemma extends_refl [simp]: "extends w w"
  by (simp add: extends_def calls_since_def)

lemma extendsI: "trace w' = trace w @ cs \<Longrightarrow> extends w w'"
  by (simp add: extends_def calls_since_def)

lemma calls_since_append:
  "extends a b \<Longrightarrow> extends b c \<Longrightarrow> calls_since a c = calls_since a b @ calls_since b c"
  by (metis append.assoc append_eq_conv_conj calls_since_def extends_def)

lemma extends_trans: "extends a b \<Longrightarrow> extends b c \<Longrightarrow> extends a c"
  by (metis append.assoc extendsI extends_def)

lemma Sync_owner_eq:
  "Sync_owner ns refs hp w =
     (case first_policy_owner refs of
        None \<Rightarrow> (Some hp, w)
      | Some ref \<Rightarrow>
          (case Get_policy \<lparr>Namespace = ns, Name = RefName ref\<rparr> w of
             (Inl e, w') \<Rightarrow> (None, w')
           | (Inr p, w') \<Rightarrow> (Some p, w')))"
  by (induction refs) simp_all

lemma outcome_simps [simp]: "outcome (Inl e) = Some e" "outcome (Inr y) = None"
  by (simp_all add: outcome_def)

lemma trace_Get [simp]:
  "trace (snd (Get_policy k w)) = trace w @ [(Get_Policy k, outcome (fst (Get_policy k w)))]"
  "trace (snd (Get_gatewayPolicy k w)) = trace w @ [(Get_GatewayPolicy k, outcome (fst (Get_gatewayPolicy k w)))]"
  "trace (snd (Get_service k w)) = trace w @ [(Get_Service k, outcome (fst (Get_service k w)))]"
  by (simp_all add: prim_defs split: option.splits)

lemma trace_write [simp]:
  "trace (snd (Create_gatewayPolicy g w)) = trace w @ [(Create_GatewayPolicy g, fst (Create_gatewayPolicy g w))]"
  "trace (snd (Update_gatewayPolicy g w)) = trace w @ [(Update_GatewayPolicy g, fst (Update_gatewayPolicy g w))]"
  "trace (snd (Patch_gatewayPolicy g l v w)) = trace w @ [(Patch_GatewayPolicy (g_key g) l v, fst (Patch_gatewayPolicy g l v w))]"
  "trace (snd (Create_service s w)) = trace w @ [(Create_Service s, fst (Create_service s w))]"
  "trace (snd (Update_service s w)) = trace w @ [(Update_Service s, fst (Update_service s w))]"
  "trace (snd (StatusUpdate_policy p w)) = trace w @ [(StatusUpdate_Policy p, fst (StatusUpdate_policy p w))]"
  by (simp_all add: prim_defs Let_def split: option.splits)

lemma trace_misc [simp]:
  "trace (snd (time_Now w)) = trace w"
  "trace (Event obj ty reason w) = trace w"
  by (simp_all add: prim_defs)


lemma Sync_owner_calls:
  "extends w (snd (Sync_owner ns refs hp w))"
  "map fst (calls_since w (snd (Sync_owner ns refs hp w))) =
     (case first_policy_owner refs of None \<Rightarrow> []
      | Some ref \<Rightarrow> [Get_Policy \<lparr>Namespace = ns, Name = RefName ref\<rparr>])"
  by (simp_all add: Sync_owner_eq extends_def calls_since_def case_prod_beta split: option.splits sum.splits)

lemma Sync_address_extends:
  "extends w (snd (Sync_address c service g hp w))"
  by (simp add: Sync_address_def extends_def calls_since_def Let_def case_prod_beta
      split: list.splits sum.splits)

lemma Sync_node_extends:
  "extends w (snd (Sync_node c service g ph ch hp w))"
  by (simp add: Sync_node_def extends_def calls_since_def Let_def case_prod_beta
      split: option.splits)

lemma Sync_node_calls:
  "x \<in> set (calls_since w (snd (Sync_node c service g ph ch hp w))) \<Longrightarrow>
     is_write (fst x) \<and> \<not> is_Update_GatewayPolicy (fst x)"
  by (auto simp: Sync_node_def calls_since_def Let_def case_prod_beta
      split: option.splits if_splits)




section \<open>The calls of the two steps, and the throttle of the Background Sweeper\<close>

lemma Sync_extends: "extends w (snd (SyncServiceWithCiliumEgressGatewayPolicy c service g w))"
proof -
  let ?o = "Sync_owner (g_Namespace g) (g_OwnerReferences g) zero_policy w"
  have e1: "extends w (snd ?o)" by (rule Sync_owner_calls(1))
  show ?thesis
  proof (cases "fst ?o")
    case None
    then show ?thesis using e1
      by (simp add: SyncServiceWithCiliumEgressGatewayPolicy_def case_prod_beta)
  next
    case (Some hp)
    let ?a = "Sync_address c service g hp (snd ?o)"
    have e2: "extends w (snd ?a)" using e1 Sync_address_extends by (rule extends_trans)
    show ?thesis
    proof (cases "fst ?a")
      case (Inl ret)
      then show ?thesis using Some e2
        by (simp add: SyncServiceWithCiliumEgressGatewayPolicy_def case_prod_beta Let_def)
    next
      case (Inr hp')
      then show ?thesis using Some extends_trans[OF e2 Sync_node_extends]
        by (simp add: SyncServiceWithCiliumEgressGatewayPolicy_def case_prod_beta Let_def)
    qed
  qed
qed

lemma extends_step: "trace w1 = trace w @ cs \<Longrightarrow> extends w1 w2 \<Longrightarrow> extends w w2"
  using extendsI extends_trans by blast

lemma extends_snoc [simp]: "extends w w1 \<Longrightarrow> trace w2 = trace w1 @ cs \<Longrightarrow> extends w w2"
  using extendsI extends_trans by blast

lemma G_step_extends: "extends w (snd (UpdateOrCreateCiliumEgressGatewayPolicy r p w))"
proof -
  have a: "\<And>w1 service g. trace w1 = trace w @ cs \<Longrightarrow>
            extends w (snd (SyncServiceWithCiliumEgressGatewayPolicy (haegressip r) service g w1))" for cs
    using Sync_extends extends_step by blast
  show ?thesis
    by (simp add: UpdateOrCreateCiliumEgressGatewayPolicy_def Let_def case_prod_beta a extendsI
        split: sum.splits option.splits)
qed

lemma S_step_extends: "extends w (snd (UpdateOrCreateService r p w))"
  by (simp add: UpdateOrCreateService_def Let_def case_prod_beta extendsI
        split: sum.splits option.splits)

lemma sweep_policies_extends: "extends w (sweep_policies r ps w)"
proof (induction ps arbitrary: w)
  case Nil
  show ?case by simp
next
  case (Cons p ps)
  show ?case
    using extends_trans[OF extends_trans[OF G_step_extends S_step_extends] Cons.IH]
    by (simp add: case_prod_beta)
qed

lemma sweep_tick_unset:
  assumes "lastServiceUpdate w = None"
  shows "sweep_tick r w = w\<lparr>clockReads := Suc (clockReads w), lastServiceUpdate := Some (clock w (clockReads w))\<rparr>"
  using assms by (simp add: sweep_tick_def time_Now_def)

lemma sweep_tick_skip:
  assumes "lastServiceUpdate w = Some t" and "saturate64 (clock w (clockReads w) - t) < skip_threshold r"
  shows "sweep_tick r w = w\<lparr>clockReads := Suc (clockReads w)\<rparr>"
  using assms by (simp add: sweep_tick_def time_Since_def time_Now_def)

lemma sweep_tick_list:
  assumes "lastServiceUpdate w = Some t" and "\<not> saturate64 (clock w (clockReads w) - t) < skip_threshold r"
  shows "\<exists>out rest. calls_since w (sweep_tick r w) = (List_Policies, out) # rest"
proof -
  let ?w1 = "w\<lparr>clockReads := Suc (clockReads w)\<rparr>"
  let ?l = "List_policies ?w1"
  have t: "trace (snd ?l) = trace w @ [(List_Policies, outcome (fst ?l))]"
    by (simp add: List_policies_def logged_def)
  show ?thesis
  proof (cases "fst ?l")
    case (Inl e)
    then have "sweep_tick r w = snd ?l"
      using assms by (simp add: sweep_tick_def time_Since_def time_Now_def case_prod_beta)
    then show ?thesis using t by (simp add: calls_since_def)
  next
    case (Inr items)
    then have s: "sweep_tick r w = sweep_policies r items (snd ?l)"
      using assms by (simp add: sweep_tick_def time_Since_def time_Now_def case_prod_beta)
    have "extends (snd ?l) (sweep_policies r items (snd ?l))" by (rule sweep_policies_extends)
    then have "trace (sweep_tick r w) = trace w @ (List_Policies, outcome (fst ?l)) # calls_since (snd ?l) (sweep_policies r items (snd ?l))"
      using s t by (simp add: extends_def)
    then show ?thesis by (simp add: calls_since_def)
  qed
qed

lemma sweep_tick_lists_all:
  assumes "lastServiceUpdate w = Some t" and "\<not> saturate64 (clock w (clockReads w) - t) < skip_threshold r"
    and "\<not> faults w (length (trace w))"
  shows "sweep_tick r w =
           sweep_policies r (map snd (policies w))
             (logged List_Policies None (w\<lparr>clockReads := Suc (clockReads w)\<rparr>))"
  using assms
  by (simp add: sweep_tick_def time_Since_def time_Now_def List_policies_def fault_injected_def logged_def)

lemma skip_threshold_exact:
  assumes "0 \<le> BackgroundCheckerSeconds r" and "BackgroundCheckerSeconds r div 2 * Second < 2 ^ 63"
  shows "skip_threshold r = BackgroundCheckerSeconds r div 2 * Second"
proof -
  have nn: "0 \<le> BackgroundCheckerSeconds r div 2 * Second"
    using assms(1) by (simp add: Second_def)
  have q: "go_quot (BackgroundCheckerSeconds r) 2 = BackgroundCheckerSeconds r div 2"
    using assms(1) by (simp add: go_quot_def)
  have "(BackgroundCheckerSeconds r div 2 * Second + 2 ^ 63) mod 2 ^ 64
          = BackgroundCheckerSeconds r div 2 * Second + 2 ^ 63"
    using nn assms(2) by (intro mod_pos_pos_trivial) simp_all
  then show ?thesis by (simp add: skip_threshold_def wrap64_def q)
qed

text \<open>
  What a tick with a recorded marker does, for a positive interval of \<open>N\<close> seconds whose
  half does not overflow 64 bits: it makes no call on the store exactly when the time
  since the marker is less than \<open>N div 2\<close> whole seconds, the quotient of the integer
  division in the code; otherwise its first call lists the Policies, and when that call
  succeeds the tick runs both steps of the Drift Reconciler on every stored Policy.
\<close>

lemma sweep_tick_below_threshold:
  assumes marker: "lastServiceUpdate w = Some t"
    and range: "0 < BackgroundCheckerSeconds r" "BackgroundCheckerSeconds r div 2 * Second < 2 ^ 63"
  defines "since \<equiv> saturate64 (clock w (clockReads w) - t)"
  shows "(calls_since w (sweep_tick r w) = [] \<longleftrightarrow> since < BackgroundCheckerSeconds r div 2 * Second)
       \<and> (\<not> since < BackgroundCheckerSeconds r div 2 * Second \<longrightarrow>
            (\<exists>out rest. calls_since w (sweep_tick r w) = (List_Policies, out) # rest))
       \<and> (\<not> since < BackgroundCheckerSeconds r div 2 * Second \<and> \<not> faults w (length (trace w)) \<longrightarrow>
            sweep_tick r w = sweep_policies r (map snd (policies w))
               (logged List_Policies None (w\<lparr>clockReads := Suc (clockReads w)\<rparr>)))"
proof -
  have th: "skip_threshold r = BackgroundCheckerSeconds r div 2 * Second"
    using range by (intro skip_threshold_exact) simp_all
  have a: "since < BackgroundCheckerSeconds r div 2 * Second \<Longrightarrow> calls_since w (sweep_tick r w) = []"
    using sweep_tick_skip[OF marker, of r] th by (simp add: since_def calls_since_def)
  have b: "\<not> since < BackgroundCheckerSeconds r div 2 * Second \<Longrightarrow>
            \<exists>out rest. calls_since w (sweep_tick r w) = (List_Policies, out) # rest"
    using sweep_tick_list[OF marker, of r] th by (simp add: since_def)
  have c: "\<not> since < BackgroundCheckerSeconds r div 2 * Second \<Longrightarrow> \<not> faults w (length (trace w)) \<Longrightarrow>
            sweep_tick r w = sweep_policies r (map snd (policies w))
               (logged List_Policies None (w\<lparr>clockReads := Suc (clockReads w)\<rparr>))"
    using sweep_tick_lists_all[OF marker, of r] th by (simp add: since_def)
  have e: "calls_since w (sweep_tick r w) = [] \<longleftrightarrow> since < BackgroundCheckerSeconds r div 2 * Second"
  proof (cases "since < BackgroundCheckerSeconds r div 2 * Second")
    case True
    then show ?thesis using a by simp
  next
    case False
    then show ?thesis using b by fastforce
  qed
  from e b c show ?thesis by blast
qed

text \<open>
  Claim C4, evaluated where the code departs from it. The comment in the code, like the
  claim, speaks of half the period. With an interval of 3 seconds the threshold that the
  code computes is 1 second: 1.2 seconds after the marker, which is less than the half of
  1.5 seconds, the tick does not skip and its first call lists the Policies. With an
  interval of 1 second the threshold is 0 and no tick is ever skipped.
\<close>

theorem C4_odd_interval_lists_early:
  "lastServiceUpdate (ex_marked 1200000000) = Some 0
   \<and> saturate64 (clock (ex_marked 1200000000) (clockReads (ex_marked 1200000000)) - 0) = 1200000000
   \<and> 2 * 1200000000 < 3 * Second
   \<and> skip_threshold (ex_reconciler\<lparr>BackgroundCheckerSeconds := 3\<rparr>) = 1 * Second
   \<and> take 1 (calls_since (ex_marked 1200000000)
        (sweep_tick (ex_reconciler\<lparr>BackgroundCheckerSeconds := 3\<rparr>) (ex_marked 1200000000)))
       = [(List_Policies, None)]
   \<and> skip_threshold (ex_reconciler\<lparr>BackgroundCheckerSeconds := 1\<rparr>) = 0"
proof -
  let ?w = "ex_marked 1200000000"
  let ?r = "ex_reconciler\<lparr>BackgroundCheckerSeconds := 3\<rparr>"
  have m: "lastServiceUpdate ?w = Some 0" by (simp add: ex_marked_def)
  have th: "skip_threshold ?r = 1 * Second"
    by (simp add: skip_threshold_def go_quot_def wrap64_def Second_def)
  have th1: "skip_threshold (ex_reconciler\<lparr>BackgroundCheckerSeconds := 1\<rparr>) = 0"
    by (simp add: skip_threshold_def go_quot_def wrap64_def Second_def)
  have s: "saturate64 (clock ?w (clockReads ?w) - 0) = 1200000000"
    by (simp add: ex_marked_def saturate64_def)
  have late: "\<not> saturate64 (clock ?w (clockReads ?w) - 0) < skip_threshold ?r"
    unfolding th s by (simp add: Second_def)
  have nf: "\<not> faults ?w (length (trace ?w))" by (simp add: ex_marked_def ex_world_def)
  let ?w1 = "logged List_Policies None (?w\<lparr>clockReads := Suc (clockReads ?w)\<rparr>)"
  have run: "sweep_tick ?r ?w = sweep_policies ?r (map snd (policies ?w)) ?w1"
    by (rule sweep_tick_lists_all[OF m late nf])
  have "extends ?w1 (sweep_tick ?r ?w)"
    unfolding run by (rule sweep_policies_extends)
  then obtain cs where "trace (sweep_tick ?r ?w) = trace ?w @ (List_Policies, None) # cs"
    by (simp add: extends_def logged_def)
  then have calls: "take 1 (calls_since ?w (sweep_tick ?r ?w)) = [(List_Policies, None)]"
    by (simp add: calls_since_def)
  have "2 * 1200000000 < 3 * Second" by (simp add: Second_def)
  with m s th th1 calls show ?thesis by blast
qed

text \<open>
  Claim C9. When the activity marker has never been set, a sweep tick makes no call on
  the store and changes no object and no event: it stores the current instant as the marker.
  The tick after it makes a call only if, by then, the skip threshold has elapsed since
  that instant.
\<close>

theorem C9_unset_marker_only_initialised:
  fixes r :: reconciler and w :: world
  assumes "lastServiceUpdate w = None"
  defines "w' \<equiv> sweep_tick r w"
  shows "calls_since w w' = [] \<and> policies w' = policies w \<and> gatewayPolicies w' = gatewayPolicies w
       \<and> services w' = services w \<and> events w' = events w
       \<and> lastServiceUpdate w' = Some (clock w (clockReads w))
       \<and> (calls_since w' (sweep_tick r w') \<noteq> [] \<longrightarrow>
            skip_threshold r \<le> saturate64 (clock w (Suc (clockReads w)) - clock w (clockReads w)))"
proof -
  have w': "w' = w\<lparr>clockReads := Suc (clockReads w), lastServiceUpdate := Some (clock w (clockReads w))\<rparr>"
    using sweep_tick_unset[OF assms(1)] by (simp add: w'_def)
  have m: "lastServiceUpdate w' = Some (clock w (clockReads w))" by (simp add: w')
  have "saturate64 (clock w (Suc (clockReads w)) - clock w (clockReads w)) < skip_threshold r \<Longrightarrow>
          calls_since w' (sweep_tick r w') = []"
    using sweep_tick_skip[OF m, of r] by (simp add: w' calls_since_def)
  then have later: "calls_since w' (sweep_tick r w') \<noteq> [] \<longrightarrow>
            skip_threshold r \<le> saturate64 (clock w (Suc (clockReads w)) - clock w (clockReads w))"
    by fastforce
  have now: "calls_since w w' = [] \<and> policies w' = policies w \<and> gatewayPolicies w' = gatewayPolicies w
       \<and> services w' = services w \<and> events w' = events w"
    by (simp add: w' calls_since_def)
  from now m later show ?thesis by blast
qed

theorem C9_unset_marker_only_initialised_witness:
  "lastServiceUpdate ex_world = None
   \<and> calls_since ex_world (sweep_tick ex_reconciler ex_world) = []
   \<and> lastServiceUpdate (sweep_tick ex_reconciler ex_world) = Some 0
   \<and> lastServiceUpdate ex_slow_clock = None
   \<and> calls_since (sweep_tick ex_reconciler ex_slow_clock)
        (sweep_tick ex_reconciler (sweep_tick ex_reconciler ex_slow_clock)) \<noteq> []
   \<and> skip_threshold ex_reconciler
        \<le> saturate64 (clock ex_slow_clock (Suc (clockReads ex_slow_clock))
                        - clock ex_slow_clock (clockReads ex_slow_clock))"
proof -
  have n: "lastServiceUpdate ex_world = None" by (simp add: ex_world_def)
  have z: "clock ex_world (clockReads ex_world) = 0" by (simp add: ex_world_def)
  have n2: "lastServiceUpdate ex_slow_clock = None" by (simp add: ex_slow_clock_def ex_world_def)
  let ?w1 = "sweep_tick ex_reconciler ex_slow_clock"
  have w1: "?w1 = ex_slow_clock\<lparr>clockReads := Suc (clockReads ex_slow_clock),
                    lastServiceUpdate := Some (clock ex_slow_clock (clockReads ex_slow_clock))\<rparr>"
    by (rule sweep_tick_unset[OF n2])
  have th: "skip_threshold ex_reconciler = 30 * Second"
    by (simp add: skip_threshold_def go_quot_def wrap64_def Second_def ex_reconciler_def)
  have m: "lastServiceUpdate ?w1 = Some 0"
    unfolding w1 by (simp add: ex_slow_clock_def ex_world_def)
  have late: "\<not> saturate64 (clock ?w1 (clockReads ?w1) - 0) < skip_threshold ex_reconciler"
    unfolding w1 th by (simp add: ex_slow_clock_def ex_world_def saturate64_def Second_def)
  have calls: "calls_since ?w1 (sweep_tick ex_reconciler ?w1) \<noteq> []"
    using sweep_tick_list[OF m late] by auto
  show ?thesis
    using C9_unset_marker_only_initialised[OF n, of ex_reconciler]
      C9_unset_marker_only_initialised[OF n2, of ex_reconciler] n z n2 calls
    by simp
qed

section \<open>The fresh fetch before the address is written\<close>







section \<open>Creation of the GatewayPolicy\<close>

lemma faults_frame [simp]:
  "faults (snd (Get_policy k w)) = faults w"
  "faults (snd (Get_gatewayPolicy k w)) = faults w"
  "faults (snd (Get_service k w)) = faults w"
  "faults (snd (Create_gatewayPolicy g w)) = faults w"
  "faults (snd (Update_gatewayPolicy g w)) = faults w"
  "faults (snd (Patch_gatewayPolicy g l v w)) = faults w"
  "faults (snd (StatusUpdate_policy p w)) = faults w"
  "faults (snd (time_Now w)) = faults w"
  "faults (Event obj ty reason w) = faults w"
  by (simp_all add: prim_defs Let_def split: option.splits)

lemma SetControllerReference_fresh:
  assumes "p_Namespace p = []" and "Scheme r = Some v"
  shows "SetControllerReference (Scheme r) p ns [] = Inr [controller_ref v p]"
  using assms by (simp add: SetControllerReference_def validateOwner_def controller_ref_def)

lemma SetControllerReference_again:
  assumes "p_Namespace p = []" and "Scheme r = Some v" and "ParseGroup v \<noteq> None"
  shows "SetControllerReference (Scheme r) p ns [controller_ref v p] = Inr [controller_ref v p]"
  using assms
  by (auto simp: SetControllerReference_def validateOwner_def controller_ref_def referSameObject_def)

lemma G_step_create:
  assumes absent: "map_of (gatewayPolicies w) (g_key (created_gatewayPolicy r v p)) = None"
    and ns: "p_Namespace p = []" and sch: "Scheme r = Some v" and pg: "ParseGroup v \<noteq> None"
    and f0: "\<not> faults w (length (trace w))" and f1: "\<not> faults w (Suc (length (trace w)))"
    and f2: "\<not> faults w (Suc (Suc (length (trace w))))"
    and svc: "map_of (services w) \<lparr>Namespace = serviceNamespace r p, Name = p_Name p\<rparr> = Some service"
  shows "\<exists>w4. gatewayPolicies w4 = gatewayPolicies w @ [(g_key (created_gatewayPolicy r v p), created_gatewayPolicy r v p)]
           \<and> services w4 = services w \<and> policies w4 = policies w \<and> faults w4 = faults w
           \<and> events w4 = events w @ [Created_event p]
           \<and> calls_since w w4 =
                [(Get_GatewayPolicy (g_key (created_gatewayPolicy r v p)), Some NotFound),
                 (Create_GatewayPolicy (created_gatewayPolicy r v p), None),
                 (Get_Service \<lparr>Namespace = serviceNamespace r p, Name = p_Name p\<rparr>, None)]
           \<and> extends w w4
           \<and> UpdateOrCreateCiliumEgressGatewayPolicy r p w =
                (snd (fst (SyncServiceWithCiliumEgressGatewayPolicy (haegressip r) service (created_gatewayPolicy r v p) w4)),
                 snd (SyncServiceWithCiliumEgressGatewayPolicy (haegressip r) service (created_gatewayPolicy r v p) w4))"
proof -
  let ?g = "created_gatewayPolicy r v p"
  let ?wa = "w\<lparr>clockReads := Suc (clockReads w), lastServiceUpdate := Some (clock w (clockReads w))\<rparr>"
  let ?w1 = "logged (Get_GatewayPolicy (g_key ?g)) (Some NotFound) ?wa"
  let ?w2 = "logged (Create_GatewayPolicy ?g) None (?w1\<lparr>gatewayPolicies := gatewayPolicies w @ [(g_key ?g, ?g)]\<rparr>)"
  let ?w3 = "Event (OnPolicy (p_key p)) ''Normal'' ''Created'' ?w2"
  let ?w4 = "logged (Get_Service \<lparr>Namespace = serviceNamespace r p, Name = p_Name p\<rparr>) None ?w3"
  have k: "g_key ?g = \<lparr>Namespace = [], Name = g_Name (ciliumEgressGatewayPolicyNew r p)\<rparr>"
    by (simp add: g_key_def created_gatewayPolicy_def ciliumEgressGatewayPolicyNew_def)
  have sc1: "SetControllerReference (Scheme r) p [] [] = Inr [controller_ref v p]"
    using SetControllerReference_fresh[OF ns sch] by simp
  have sc2: "SetControllerReference (Scheme r) p [] [controller_ref v p] = Inr [controller_ref v p]"
    using SetControllerReference_again[OF ns sch pg] by simp
  have g1: "Get_gatewayPolicy (g_key ?g) ?wa = (Inl NotFound, ?w1)"
    using absent f0 by (simp add: prim_defs)
  have c1: "Create_gatewayPolicy ?g ?w1 = (None, ?w2)"
    using absent f1 by (simp add: prim_defs Let_def)
  have s1: "Get_service \<lparr>Namespace = serviceNamespace r p, Name = p_Name p\<rparr> ?w3 = (Inr service, ?w4)"
    using svc f2 by (simp add: prim_defs)
  have run: "UpdateOrCreateCiliumEgressGatewayPolicy r p w =
                (snd (fst (SyncServiceWithCiliumEgressGatewayPolicy (haegressip r) service ?g ?w4)),
                 snd (SyncServiceWithCiliumEgressGatewayPolicy (haegressip r) service ?g ?w4))"
    unfolding UpdateOrCreateCiliumEgressGatewayPolicy_def
    using sc1 sc2 g1 c1 s1 k
    by (simp add: Let_def time_Now_def IsNotFound_def case_prod_beta created_gatewayPolicy_def
          ciliumEgressGatewayPolicyNew_def)
  have obs: "gatewayPolicies ?w4 = gatewayPolicies w @ [(g_key ?g, ?g)]
           \<and> services ?w4 = services w \<and> policies ?w4 = policies w \<and> faults ?w4 = faults w
           \<and> events ?w4 = events w @ [Created_event p]
           \<and> calls_since w ?w4 =
                [(Get_GatewayPolicy (g_key ?g), Some NotFound),
                 (Create_GatewayPolicy ?g, None),
                 (Get_Service \<lparr>Namespace = serviceNamespace r p, Name = p_Name p\<rparr>, None)]
           \<and> extends w ?w4"
    by (simp add: logged_def Event_def Created_event_def calls_since_def extends_def)
  from obs run show ?thesis by blast
qed

lemma stored_EgressIP_cong:
  "gatewayPolicies w' = gatewayPolicies w \<Longrightarrow> stored_EgressIP k w' = stored_EgressIP k w"
  by (simp add: stored_EgressIP_def)

lemma Patch_keeps_EgressIP:
  "map_option (\<lambda>g. EgressIP (Gateway (g_Spec g))) (map_of (gatewayPolicies (snd (Patch_gatewayPolicy g l v w))) k)
     = map_option (\<lambda>g. EgressIP (Gateway (g_Spec g))) (map_of (gatewayPolicies w) k)"
  by (simp add: prim_defs Let_def update_conv' split: option.splits)

lemma Sync_node_keeps_EgressIP:
  "stored_EgressIP k (snd (Sync_node c service g ph ch hp w)) = stored_EgressIP k w"
  by (simp add: Sync_node_def Let_def case_prod_beta stored_EgressIP_def Patch_keeps_EgressIP split: option.splits)

lemma no_faults_frame [simp]:
  "no_faults (snd (Get_policy k w)) = no_faults w"
  "no_faults (snd (Get_gatewayPolicy k w)) = no_faults w"
  "no_faults (snd (Update_gatewayPolicy g w)) = no_faults w"
  "no_faults (snd (StatusUpdate_policy p w)) = no_faults w"
  "no_faults (snd (time_Now w)) = no_faults w"
  by (simp_all add: no_faults_def)

lemma Sync_owner_found:
  assumes "no_faults w" and "first_policy_owner refs = Some ref"
    and "map_of (policies w) \<lparr>Namespace = ns, Name = RefName ref\<rparr> = Some hp"
  shows "fst (Sync_owner ns refs z w) = Some hp" and "no_faults (snd (Sync_owner ns refs z w))"
  using assms
  by (simp_all add: Sync_owner_eq no_faults_def prim_defs)

lemma Sync_address_sets_EgressIP:
  assumes nf: "no_faults w" and ing: "s_Ingress service = ip # others"
    and st: "map_of (gatewayPolicies w) (g_key g) = Some fresh" and wf: "g_key fresh = g_key g"
  shows "\<exists>hp'. fst (Sync_address c service g hp w) = Inr hp'"
    and "stored_EgressIP (g_key g) (snd (Sync_address c service g hp w)) = Some ip"
proof -
  have get: "Get_gatewayPolicy (g_key g) w = (Inr fresh, logged (Get_GatewayPolicy (g_key g)) None w)"
    using nf st by (simp add: prim_defs no_faults_def)
  let ?w1 = "logged (Get_GatewayPolicy (g_key g)) None w"
  let ?u = "fresh\<lparr>g_Spec := (g_Spec fresh)\<lparr>Gateway := (Gateway (g_Spec fresh))\<lparr>EgressIP := ip\<rparr>\<rparr>\<rparr>"
  have ku: "g_key ?u = g_key g" using wf by (simp add: g_key_def)
  have upd: "fst (Update_gatewayPolicy ?u ?w1) = None"
    "stored_EgressIP (g_key g) (snd (Update_gatewayPolicy ?u ?w1)) = Some ip"
    using nf st ku by (simp_all add: prim_defs no_faults_def Let_def stored_EgressIP_def update_conv')
  have same: "EgressIP (Gateway (g_Spec fresh)) = ip \<Longrightarrow> stored_EgressIP (g_key g) ?w1 = Some ip"
    using st by (simp add: stored_EgressIP_def logged_def)
  show "\<exists>hp'. fst (Sync_address c service g hp w) = Inr hp'"
    using ing get upd(1)
    by (simp add: Sync_address_def Let_def case_prod_beta)
  show "stored_EgressIP (g_key g) (snd (Sync_address c service g hp w)) = Some ip"
    using ing get upd same
    by (simp add: Sync_address_def Let_def case_prod_beta stored_EgressIP_def)
qed

lemma Sync_sets_EgressIP:
  assumes nf: "no_faults w" and ing: "s_Ingress service = ip # others"
    and st: "map_of (gatewayPolicies w) (g_key g) = Some fresh" and wf: "g_key fresh = g_key g"
    and own: "first_policy_owner (g_OwnerReferences g) = Some ref"
    and pol: "map_of (policies w) \<lparr>Namespace = g_Namespace g, Name = RefName ref\<rparr> = Some hp"
  shows "stored_EgressIP (g_key g) (snd (SyncServiceWithCiliumEgressGatewayPolicy c service g w)) = Some ip"
proof -
  let ?o = "Sync_owner (g_Namespace g) (g_OwnerReferences g) zero_policy w"
  have o1: "fst ?o = Some hp" and nf1: "no_faults (snd ?o)"
    using Sync_owner_found[OF nf own pol] by simp_all
  have st1: "map_of (gatewayPolicies (snd ?o)) (g_key g) = Some fresh" using st by simp
  let ?a = "Sync_address c service g hp (snd ?o)"
  obtain hp' where a1: "fst ?a = Inr hp'"
    using Sync_address_sets_EgressIP(1)[OF nf1 ing st1 wf] by blast
  have a2: "stored_EgressIP (g_key g) (snd ?a) = Some ip"
    using Sync_address_sets_EgressIP(2)[OF nf1 ing st1 wf] .
  show ?thesis
    using o1 a1 a2
    by (simp add: SyncServiceWithCiliumEgressGatewayPolicy_def case_prod_beta Let_def Sync_node_keeps_EgressIP)
qed

lemma G_step_create_with_service:
  assumes absent: "map_of (gatewayPolicies w) (g_key (created_gatewayPolicy r v p)) = None"
    and ns: "p_Namespace p = []" and sch: "Scheme r = Some v" and pg: "ParseGroup v \<noteq> None"
    and f0: "\<not> faults w (length (trace w))" and f1: "\<not> faults w (Suc (length (trace w)))"
    and f2: "\<not> faults w (Suc (Suc (length (trace w))))"
    and svc: "map_of (services w) \<lparr>Namespace = serviceNamespace r p, Name = p_Name p\<rparr> = Some service"
  shows "(\<exists>w4. gatewayPolicies w4 = gatewayPolicies w @ [(g_key (created_gatewayPolicy r v p), created_gatewayPolicy r v p)]
           \<and> services w4 = services w \<and> policies w4 = policies w
           \<and> events w4 = events w @ [Created_event p]
           \<and> calls_since w w4 =
                [(Get_GatewayPolicy (g_key (created_gatewayPolicy r v p)), Some NotFound),
                 (Create_GatewayPolicy (created_gatewayPolicy r v p), None),
                 (Get_Service \<lparr>Namespace = serviceNamespace r p, Name = p_Name p\<rparr>, None)]
           \<and> UpdateOrCreateCiliumEgressGatewayPolicy r p w =
                (snd (fst (SyncServiceWithCiliumEgressGatewayPolicy (haegressip r) service (created_gatewayPolicy r v p) w4)),
                 snd (SyncServiceWithCiliumEgressGatewayPolicy (haegressip r) service (created_gatewayPolicy r v p) w4)))
       \<and> (no_faults w \<and> s_Ingress service = ip # others
            \<and> map_of (policies w) \<lparr>Namespace = [], Name = p_Name p\<rparr> = Some stored \<longrightarrow>
            stored_EgressIP (g_key (created_gatewayPolicy r v p))
              (snd (UpdateOrCreateCiliumEgressGatewayPolicy r p w)) = Some ip)"
proof -
  let ?g = "created_gatewayPolicy r v p"
  obtain w4 where w4: "gatewayPolicies w4 = gatewayPolicies w @ [(g_key ?g, ?g)]"
      "services w4 = services w" "policies w4 = policies w" "faults w4 = faults w"
      "events w4 = events w @ [Created_event p]"
      "calls_since w w4 =
                [(Get_GatewayPolicy (g_key ?g), Some NotFound),
                 (Create_GatewayPolicy ?g, None),
                 (Get_Service \<lparr>Namespace = serviceNamespace r p, Name = p_Name p\<rparr>, None)]"
      and run: "UpdateOrCreateCiliumEgressGatewayPolicy r p w =
                (snd (fst (SyncServiceWithCiliumEgressGatewayPolicy (haegressip r) service ?g w4)),
                 snd (SyncServiceWithCiliumEgressGatewayPolicy (haegressip r) service ?g w4))"
    using G_step_create[OF absent ns sch pg f0 f1 f2 svc] by blast
  have regain: "stored_EgressIP (g_key ?g) (snd (UpdateOrCreateCiliumEgressGatewayPolicy r p w)) = Some ip"
    if nf: "no_faults w" and ing: "s_Ingress service = ip # others"
      and pol: "map_of (policies w) \<lparr>Namespace = [], Name = p_Name p\<rparr> = Some stored"
  proof -
    have nf4: "no_faults w4" using nf w4(4) by (simp add: no_faults_def)
    have st4: "map_of (gatewayPolicies w4) (g_key ?g) = Some ?g"
      using absent w4(1) by (simp add: map_add_Some_iff)
    have own: "first_policy_owner (g_OwnerReferences ?g) = Some (controller_ref v p)"
      by (simp add: created_gatewayPolicy_def controller_ref_def)
    have pol4: "map_of (policies w4) \<lparr>Namespace = g_Namespace ?g, Name = RefName (controller_ref v p)\<rparr> = Some stored"
      using pol w4(3) by (simp add: created_gatewayPolicy_def ciliumEgressGatewayPolicyNew_def controller_ref_def)
    show ?thesis
      using Sync_sets_EgressIP[OF nf4 ing st4 refl own pol4] run by simp
  qed
  from w4 run regain show ?thesis by blast
qed

lemma grows_refl: "grows w w"
  by (simp add: grows_def)

lemma grows_trans:
  assumes "grows a b" and "grows b c"
  shows "grows a c"
proof -
  have eab: "extends a b" and ebc: "extends b c"
    using assms unfolding grows_def by blast+
  have e: "extends a c" using eab ebc by (rule extends_trans)
  have "take (length (events a)) (events b) = events a" using assms(1) unfolding grows_def by blast
  then obtain xs where xs: "events b = events a @ xs" by (metis append_take_drop_id)
  have "take (length (events b)) (events c) = events b" using assms(2) unfolding grows_def by blast
  then obtain ys where ys: "events c = events b @ ys" by (metis append_take_drop_id)
  have ev: "take (length (events a)) (events c) = events a" unfolding ys xs by simp
  have k1: "\<forall>k. map_of (gatewayPolicies a) k \<noteq> None \<longrightarrow> map_of (gatewayPolicies b) k \<noteq> None"
    using assms(1) unfolding grows_def by blast
  have k2: "\<forall>k. map_of (gatewayPolicies b) k \<noteq> None \<longrightarrow> map_of (gatewayPolicies c) k \<noteq> None"
    using assms(2) unfolding grows_def by blast
  have ks: "\<forall>k. map_of (gatewayPolicies a) k \<noteq> None \<longrightarrow> map_of (gatewayPolicies c) k \<noteq> None"
    using k1 k2 by blast
  show ?thesis unfolding grows_def using e ev ks by blast
qed

lemma grows_prim:
  "grows w (snd (Get_policy k w))"
  "grows w (snd (Get_gatewayPolicy k w))"
  "grows w (snd (Get_service k w))"
  "grows w (snd (Update_gatewayPolicy g w))"
  "grows w (snd (Patch_gatewayPolicy g l v w))"
  "grows w (snd (StatusUpdate_policy p w))"
  "grows w (snd (time_Now w))"
  "grows w (Event obj ty reason w)"
  by (simp_all add: grows_def extends_def calls_since_def prim_defs Let_def update_conv'
      split: option.splits)

lemma grows_after:
  "grows w w1 \<Longrightarrow> grows w (snd (Get_policy k w1))"
  "grows w w1 \<Longrightarrow> grows w (snd (Get_gatewayPolicy k w1))"
  "grows w w1 \<Longrightarrow> grows w (snd (Get_service k w1))"
  "grows w w1 \<Longrightarrow> grows w (snd (Update_gatewayPolicy g w1))"
  "grows w w1 \<Longrightarrow> grows w (snd (Patch_gatewayPolicy g l v w1))"
  "grows w w1 \<Longrightarrow> grows w (snd (StatusUpdate_policy p w1))"
  "grows w w1 \<Longrightarrow> grows w (snd (time_Now w1))"
  "grows w w1 \<Longrightarrow> grows w (Event obj ty reason w1)"
  by (erule grows_trans, rule grows_prim)+

lemma Sync_owner_grows: "grows w w1 \<Longrightarrow> grows w (snd (Sync_owner ns refs hp w1))"
  by (simp add: Sync_owner_eq case_prod_beta grows_after split: option.splits sum.splits)

lemma Sync_address_grows: "grows w w1 \<Longrightarrow> grows w (snd (Sync_address c service g hp w1))"
  by (simp add: Sync_address_def Let_def case_prod_beta grows_after split: list.splits sum.splits)

lemma Sync_node_grows: "grows w w1 \<Longrightarrow> grows w (snd (Sync_node c service g ph ch hp w1))"
  by (simp add: Sync_node_def Let_def case_prod_beta grows_after split: option.splits)

lemma Sync_grows:
  "grows w w1 \<Longrightarrow> grows w (snd (SyncServiceWithCiliumEgressGatewayPolicy c service g w1))"
  by (simp add: SyncServiceWithCiliumEgressGatewayPolicy_def Let_def case_prod_beta
      Sync_owner_grows Sync_address_grows Sync_node_grows split: option.splits sum.splits)

lemma G_step_create_always:
  assumes absent: "map_of (gatewayPolicies w) (g_key (created_gatewayPolicy r v p)) = None"
    and ns: "p_Namespace p = []" and sch: "Scheme r = Some v"
    and f0: "\<not> faults w (length (trace w))" and f1: "\<not> faults w (Suc (length (trace w)))"
  shows "\<exists>w3. trace w3 = trace w @
                  [(Get_GatewayPolicy (g_key (created_gatewayPolicy r v p)), Some NotFound),
                   (Create_GatewayPolicy (created_gatewayPolicy r v p), None)]
           \<and> events w3 = events w @ [Created_event p]
           \<and> map_of (gatewayPolicies w3) (g_key (created_gatewayPolicy r v p)) \<noteq> None
           \<and> grows w3 (snd (UpdateOrCreateCiliumEgressGatewayPolicy r p w))"
proof -
  let ?g = "created_gatewayPolicy r v p"
  let ?wa = "w\<lparr>clockReads := Suc (clockReads w), lastServiceUpdate := Some (clock w (clockReads w))\<rparr>"
  let ?w1 = "logged (Get_GatewayPolicy (g_key ?g)) (Some NotFound) ?wa"
  let ?w2 = "logged (Create_GatewayPolicy ?g) None (?w1\<lparr>gatewayPolicies := gatewayPolicies w @ [(g_key ?g, ?g)]\<rparr>)"
  let ?w3 = "Event (OnPolicy (p_key p)) ''Normal'' ''Created'' ?w2"
  let ?sk = "\<lparr>Namespace = serviceNamespace r p, Name = p_Name p\<rparr>"
  have k: "g_key ?g = \<lparr>Namespace = [], Name = g_Name (ciliumEgressGatewayPolicyNew r p)\<rparr>"
    by (simp add: g_key_def created_gatewayPolicy_def ciliumEgressGatewayPolicyNew_def)
  have sc1: "SetControllerReference (Scheme r) p [] [] = Inr [controller_ref v p]"
    using SetControllerReference_fresh[OF ns sch] by simp
  have g1: "Get_gatewayPolicy (g_key ?g) ?wa = (Inl NotFound, ?w1)"
    using absent f0 by (simp add: prim_defs)
  have c1: "Create_gatewayPolicy ?g ?w1 = (None, ?w2)"
    using absent f1 by (simp add: prim_defs Let_def)
  have run: "UpdateOrCreateCiliumEgressGatewayPolicy r p w =
       (case SetControllerReference (Scheme r) p [] [controller_ref v p] of
          Inl e \<Rightarrow> (Some e, ?w3)
        | Inr refs \<Rightarrow>
            (case fst (Get_service ?sk ?w3) of
               Inr service \<Rightarrow>
                 (snd (fst (SyncServiceWithCiliumEgressGatewayPolicy (haegressip r) service
                              (?g\<lparr>g_OwnerReferences := refs\<rparr>) (snd (Get_service ?sk ?w3)))),
                  snd (SyncServiceWithCiliumEgressGatewayPolicy (haegressip r) service
                         (?g\<lparr>g_OwnerReferences := refs\<rparr>) (snd (Get_service ?sk ?w3))))
             | Inl e \<Rightarrow> (None, snd (Get_service ?sk ?w3))))"
    unfolding UpdateOrCreateCiliumEgressGatewayPolicy_def
    using sc1 g1 c1 k
    by (simp add: Let_def time_Now_def IsNotFound_def case_prod_beta created_gatewayPolicy_def
          ciliumEgressGatewayPolicyNew_def split: sum.splits)
  have gs: "grows ?w3 (snd (Get_service ?sk ?w3))" by (rule grows_prim)
  have "grows ?w3 (snd (UpdateOrCreateCiliumEgressGatewayPolicy r p w))"
    unfolding run using gs Sync_grows[OF gs] grows_refl[of ?w3]
    by (simp split: sum.splits)
  moreover have "trace ?w3 = trace w @
                  [(Get_GatewayPolicy (g_key ?g), Some NotFound), (Create_GatewayPolicy ?g, None)]"
    by (simp add: logged_def Event_def)
  moreover have "events ?w3 = events w @ [Created_event p]"
    by (simp add: logged_def Event_def Created_event_def)
  moreover have "map_of (gatewayPolicies ?w3) (g_key ?g) \<noteq> None"
    by (simp add: logged_def Event_def)
  ultimately show ?thesis by blast
qed

lemma G_step_create_no_service:
  assumes absent: "map_of (gatewayPolicies w) (g_key (created_gatewayPolicy r v p)) = None"
    and ns: "p_Namespace p = []" and sch: "Scheme r = Some v" and pg: "ParseGroup v \<noteq> None"
    and f0: "\<not> faults w (length (trace w))" and f1: "\<not> faults w (Suc (length (trace w)))"
    and none: "faults w (Suc (Suc (length (trace w)))) \<or>
               map_of (services w) \<lparr>Namespace = serviceNamespace r p, Name = p_Name p\<rparr> = None"
  shows "fst (UpdateOrCreateCiliumEgressGatewayPolicy r p w) = None"
    and "gatewayPolicies (snd (UpdateOrCreateCiliumEgressGatewayPolicy r p w))
           = gatewayPolicies w @ [(g_key (created_gatewayPolicy r v p), created_gatewayPolicy r v p)]"
    and "events (snd (UpdateOrCreateCiliumEgressGatewayPolicy r p w)) = events w @ [Created_event p]"
    and "calls_since w (snd (UpdateOrCreateCiliumEgressGatewayPolicy r p w)) =
           [(Get_GatewayPolicy (g_key (created_gatewayPolicy r v p)), Some NotFound),
            (Create_GatewayPolicy (created_gatewayPolicy r v p), None),
            (Get_Service \<lparr>Namespace = serviceNamespace r p, Name = p_Name p\<rparr>,
               Some (if faults w (Suc (Suc (length (trace w)))) then StoreFailure else NotFound))]"
proof -
  let ?g = "created_gatewayPolicy r v p"
  let ?wa = "w\<lparr>clockReads := Suc (clockReads w), lastServiceUpdate := Some (clock w (clockReads w))\<rparr>"
  let ?w1 = "logged (Get_GatewayPolicy (g_key ?g)) (Some NotFound) ?wa"
  let ?w2 = "logged (Create_GatewayPolicy ?g) None (?w1\<lparr>gatewayPolicies := gatewayPolicies w @ [(g_key ?g, ?g)]\<rparr>)"
  let ?w3 = "Event (OnPolicy (p_key p)) ''Normal'' ''Created'' ?w2"
  let ?sk = "\<lparr>Namespace = serviceNamespace r p, Name = p_Name p\<rparr>"
  let ?e = "if faults w (Suc (Suc (length (trace w)))) then StoreFailure else NotFound"
  let ?w4 = "logged (Get_Service ?sk) (Some ?e) ?w3"
  have k: "g_key ?g = \<lparr>Namespace = [], Name = g_Name (ciliumEgressGatewayPolicyNew r p)\<rparr>"
    by (simp add: g_key_def created_gatewayPolicy_def ciliumEgressGatewayPolicyNew_def)
  have sc1: "SetControllerReference (Scheme r) p [] [] = Inr [controller_ref v p]"
    using SetControllerReference_fresh[OF ns sch] by simp
  have sc2: "SetControllerReference (Scheme r) p [] [controller_ref v p] = Inr [controller_ref v p]"
    using SetControllerReference_again[OF ns sch pg] by simp
  have g1: "Get_gatewayPolicy (g_key ?g) ?wa = (Inl NotFound, ?w1)"
    using absent f0 by (simp add: prim_defs)
  have c1: "Create_gatewayPolicy ?g ?w1 = (None, ?w2)"
    using absent f1 by (simp add: prim_defs Let_def)
  have s1: "Get_service ?sk ?w3 = (Inl ?e, ?w4)"
    using none by (auto simp: prim_defs)
  have run: "UpdateOrCreateCiliumEgressGatewayPolicy r p w = (None, ?w4)"
    unfolding UpdateOrCreateCiliumEgressGatewayPolicy_def
    using sc1 sc2 g1 c1 s1 k
    by (simp add: Let_def time_Now_def IsNotFound_def case_prod_beta created_gatewayPolicy_def
          ciliumEgressGatewayPolicyNew_def)
  show "fst (UpdateOrCreateCiliumEgressGatewayPolicy r p w) = None" by (simp add: run)
  show "gatewayPolicies (snd (UpdateOrCreateCiliumEgressGatewayPolicy r p w))
           = gatewayPolicies w @ [(g_key ?g, ?g)]"
    by (simp add: run logged_def Event_def)
  show "events (snd (UpdateOrCreateCiliumEgressGatewayPolicy r p w)) = events w @ [Created_event p]"
    by (simp add: run logged_def Event_def Created_event_def)
  show "calls_since w (snd (UpdateOrCreateCiliumEgressGatewayPolicy r p w)) =
           [(Get_GatewayPolicy (g_key ?g), Some NotFound), (Create_GatewayPolicy ?g, None),
            (Get_Service ?sk, Some ?e)]"
    by (simp add: run logged_def Event_def calls_since_def)
qed

text \<open>
  Claim C6. When no GatewayPolicy is stored under the deterministic name (the Policy being
  cluster-scoped, its type registered, and the store failing neither the lookup nor the
  create), the Drift Reconciler creates the GatewayPolicy and records a \<^verbatim>\<open>Created\<close>
  event on the Policy, whether or not a Service exists: these are its first two calls and
  its first event, and a GatewayPolicy is stored under that name at the end. When no
  Service for the Policy is found in the target namespace, this is all it does, and it
  returns no error. When one is found, it returns what the Feedback Synchronizer returns
  when run, in the state then reached, on that Service and the GatewayPolicy just created;
  and when moreover the store fails no call, the Service reports an ingress address and
  the Policy is stored under the empty namespace, the stored GatewayPolicy ends with the
  Service's first ingress address.
\<close>

theorem C6_create_then_synchronize:
  assumes absent: "map_of (gatewayPolicies w) (g_key (created_gatewayPolicy r v p)) = None"
    and ns: "p_Namespace p = []" and sch: "Scheme r = Some v"
    and f0: "\<not> faults w (length (trace w))" and f1: "\<not> faults w (Suc (length (trace w)))"
  shows "take 2 (calls_since w (snd (UpdateOrCreateCiliumEgressGatewayPolicy r p w))) =
           [(Get_GatewayPolicy (g_key (created_gatewayPolicy r v p)), Some NotFound),
            (Create_GatewayPolicy (created_gatewayPolicy r v p), None)]
       \<and> take (Suc (length (events w))) (events (snd (UpdateOrCreateCiliumEgressGatewayPolicy r p w)))
           = events w @ [Created_event p]
       \<and> map_of (gatewayPolicies (snd (UpdateOrCreateCiliumEgressGatewayPolicy r p w)))
            (g_key (created_gatewayPolicy r v p)) \<noteq> None
       \<and> (ParseGroup v \<noteq> None \<and>
            (faults w (Suc (Suc (length (trace w)))) \<or>
             map_of (services w) \<lparr>Namespace = serviceNamespace r p, Name = p_Name p\<rparr> = None) \<longrightarrow>
            fst (UpdateOrCreateCiliumEgressGatewayPolicy r p w) = None
          \<and> gatewayPolicies (snd (UpdateOrCreateCiliumEgressGatewayPolicy r p w))
               = gatewayPolicies w @ [(g_key (created_gatewayPolicy r v p), created_gatewayPolicy r v p)]
          \<and> events (snd (UpdateOrCreateCiliumEgressGatewayPolicy r p w)) = events w @ [Created_event p]
          \<and> calls_since w (snd (UpdateOrCreateCiliumEgressGatewayPolicy r p w)) =
               [(Get_GatewayPolicy (g_key (created_gatewayPolicy r v p)), Some NotFound),
                (Create_GatewayPolicy (created_gatewayPolicy r v p), None),
                (Get_Service \<lparr>Namespace = serviceNamespace r p, Name = p_Name p\<rparr>,
                   Some (if faults w (Suc (Suc (length (trace w)))) then StoreFailure else NotFound))])
       \<and> (ParseGroup v \<noteq> None \<and> \<not> faults w (Suc (Suc (length (trace w)))) \<and>
            map_of (services w) \<lparr>Namespace = serviceNamespace r p, Name = p_Name p\<rparr> = Some service \<longrightarrow>
            (\<exists>w4. gatewayPolicies w4 = gatewayPolicies w @ [(g_key (created_gatewayPolicy r v p), created_gatewayPolicy r v p)]
               \<and> services w4 = services w \<and> policies w4 = policies w
               \<and> events w4 = events w @ [Created_event p]
               \<and> calls_since w w4 =
                    [(Get_GatewayPolicy (g_key (created_gatewayPolicy r v p)), Some NotFound),
                     (Create_GatewayPolicy (created_gatewayPolicy r v p), None),
                     (Get_Service \<lparr>Namespace = serviceNamespace r p, Name = p_Name p\<rparr>, None)]
               \<and> UpdateOrCreateCiliumEgressGatewayPolicy r p w =
                    (snd (fst (SyncServiceWithCiliumEgressGatewayPolicy (haegressip r) service (created_gatewayPolicy r v p) w4)),
                     snd (SyncServiceWithCiliumEgressGatewayPolicy (haegressip r) service (created_gatewayPolicy r v p) w4))))
       \<and> (ParseGroup v \<noteq> None \<and> no_faults w \<and>
            map_of (services w) \<lparr>Namespace = serviceNamespace r p, Name = p_Name p\<rparr> = Some service \<and>
            s_Ingress service = ip # others \<and>
            map_of (policies w) \<lparr>Namespace = [], Name = p_Name p\<rparr> = Some stored \<longrightarrow>
            stored_EgressIP (g_key (created_gatewayPolicy r v p))
              (snd (UpdateOrCreateCiliumEgressGatewayPolicy r p w)) = Some ip)"
proof -
  let ?W = "UpdateOrCreateCiliumEgressGatewayPolicy r p w"
  let ?g = "created_gatewayPolicy r v p"
  obtain w3 where t3: "trace w3 = trace w @
                  [(Get_GatewayPolicy (g_key ?g), Some NotFound), (Create_GatewayPolicy ?g, None)]"
      and e3: "events w3 = events w @ [Created_event p]"
      and k3: "map_of (gatewayPolicies w3) (g_key ?g) \<noteq> None"
      and gr: "grows w3 (snd ?W)"
    using G_step_create_always[OF absent ns sch f0 f1] by blast
  have "extends w3 (snd ?W)" using gr unfolding grows_def by blast
  then obtain cs where "trace (snd ?W) = trace w3 @ cs" unfolding extends_def by blast
  then have c1: "take 2 (calls_since w (snd ?W)) =
           [(Get_GatewayPolicy (g_key ?g), Some NotFound), (Create_GatewayPolicy ?g, None)]"
    using t3 by (simp add: calls_since_def)
  have "take (length (events w3)) (events (snd ?W)) = events w3" using gr unfolding grows_def by blast
  then obtain es where "events (snd ?W) = events w3 @ es" by (metis append_take_drop_id)
  then have c2: "take (Suc (length (events w))) (events (snd ?W)) = events w @ [Created_event p]"
    using e3 by simp
  have c3: "map_of (gatewayPolicies (snd ?W)) (g_key ?g) \<noteq> None"
    using gr k3 unfolding grows_def by blast
  have c4: "ParseGroup v \<noteq> None \<and>
            (faults w (Suc (Suc (length (trace w)))) \<or>
             map_of (services w) \<lparr>Namespace = serviceNamespace r p, Name = p_Name p\<rparr> = None) \<longrightarrow>
            fst ?W = None
          \<and> gatewayPolicies (snd ?W) = gatewayPolicies w @ [(g_key ?g, ?g)]
          \<and> events (snd ?W) = events w @ [Created_event p]
          \<and> calls_since w (snd ?W) =
               [(Get_GatewayPolicy (g_key ?g), Some NotFound),
                (Create_GatewayPolicy ?g, None),
                (Get_Service \<lparr>Namespace = serviceNamespace r p, Name = p_Name p\<rparr>,
                   Some (if faults w (Suc (Suc (length (trace w)))) then StoreFailure else NotFound))]"
  proof (intro impI)
    assume h: "ParseGroup v \<noteq> None \<and>
            (faults w (Suc (Suc (length (trace w)))) \<or>
             map_of (services w) \<lparr>Namespace = serviceNamespace r p, Name = p_Name p\<rparr> = None)"
    have pg: "ParseGroup v \<noteq> None" by (rule conjunct1[OF h])
    have none: "faults w (Suc (Suc (length (trace w)))) \<or>
             map_of (services w) \<lparr>Namespace = serviceNamespace r p, Name = p_Name p\<rparr> = None"
      by (rule conjunct2[OF h])
    note n = G_step_create_no_service[OF absent ns sch pg f0 f1 none]
    show "fst ?W = None
          \<and> gatewayPolicies (snd ?W) = gatewayPolicies w @ [(g_key ?g, ?g)]
          \<and> events (snd ?W) = events w @ [Created_event p]
          \<and> calls_since w (snd ?W) =
               [(Get_GatewayPolicy (g_key ?g), Some NotFound),
                (Create_GatewayPolicy ?g, None),
                (Get_Service \<lparr>Namespace = serviceNamespace r p, Name = p_Name p\<rparr>,
                   Some (if faults w (Suc (Suc (length (trace w)))) then StoreFailure else NotFound))]"
      by (rule conjI[OF n(1) conjI[OF n(2) conjI[OF n(3) n(4)]]])
  qed
  have c5: "ParseGroup v \<noteq> None \<and> \<not> faults w (Suc (Suc (length (trace w)))) \<and>
            map_of (services w) \<lparr>Namespace = serviceNamespace r p, Name = p_Name p\<rparr> = Some service \<longrightarrow>
            (\<exists>w4. gatewayPolicies w4 = gatewayPolicies w @ [(g_key ?g, ?g)]
               \<and> services w4 = services w \<and> policies w4 = policies w
               \<and> events w4 = events w @ [Created_event p]
               \<and> calls_since w w4 =
                    [(Get_GatewayPolicy (g_key ?g), Some NotFound),
                     (Create_GatewayPolicy ?g, None),
                     (Get_Service \<lparr>Namespace = serviceNamespace r p, Name = p_Name p\<rparr>, None)]
               \<and> ?W =
                    (snd (fst (SyncServiceWithCiliumEgressGatewayPolicy (haegressip r) service ?g w4)),
                     snd (SyncServiceWithCiliumEgressGatewayPolicy (haegressip r) service ?g w4)))"
  proof (intro impI)
    assume h: "ParseGroup v \<noteq> None \<and> \<not> faults w (Suc (Suc (length (trace w)))) \<and>
            map_of (services w) \<lparr>Namespace = serviceNamespace r p, Name = p_Name p\<rparr> = Some service"
    have pg: "ParseGroup v \<noteq> None" by (rule conjunct1[OF h])
    have f2: "\<not> faults w (Suc (Suc (length (trace w))))" by (rule conjunct1[OF conjunct2[OF h]])
    have svc: "map_of (services w) \<lparr>Namespace = serviceNamespace r p, Name = p_Name p\<rparr> = Some service"
      by (rule conjunct2[OF conjunct2[OF h]])
    obtain w4 where a: "gatewayPolicies w4 = gatewayPolicies w @ [(g_key ?g, ?g)]"
      and b: "services w4 = services w" and c: "policies w4 = policies w"
      and d: "events w4 = events w @ [Created_event p]"
      and e: "calls_since w w4 =
                    [(Get_GatewayPolicy (g_key ?g), Some NotFound),
                     (Create_GatewayPolicy ?g, None),
                     (Get_Service \<lparr>Namespace = serviceNamespace r p, Name = p_Name p\<rparr>, None)]"
      and f: "?W =
                    (snd (fst (SyncServiceWithCiliumEgressGatewayPolicy (haegressip r) service ?g w4)),
                     snd (SyncServiceWithCiliumEgressGatewayPolicy (haegressip r) service ?g w4))"
      using G_step_create[OF absent ns sch pg f0 f1 f2 svc] by blast
    show "\<exists>w4. gatewayPolicies w4 = gatewayPolicies w @ [(g_key ?g, ?g)]
               \<and> services w4 = services w \<and> policies w4 = policies w
               \<and> events w4 = events w @ [Created_event p]
               \<and> calls_since w w4 =
                    [(Get_GatewayPolicy (g_key ?g), Some NotFound),
                     (Create_GatewayPolicy ?g, None),
                     (Get_Service \<lparr>Namespace = serviceNamespace r p, Name = p_Name p\<rparr>, None)]
               \<and> ?W =
                    (snd (fst (SyncServiceWithCiliumEgressGatewayPolicy (haegressip r) service ?g w4)),
                     snd (SyncServiceWithCiliumEgressGatewayPolicy (haegressip r) service ?g w4))"
      by (rule exI[of _ w4], rule conjI[OF a conjI[OF b conjI[OF c conjI[OF d conjI[OF e f]]]]])
  qed
  have c6: "ParseGroup v \<noteq> None \<and> no_faults w \<and>
            map_of (services w) \<lparr>Namespace = serviceNamespace r p, Name = p_Name p\<rparr> = Some service \<and>
            s_Ingress service = ip # others \<and>
            map_of (policies w) \<lparr>Namespace = [], Name = p_Name p\<rparr> = Some stored \<longrightarrow>
            stored_EgressIP (g_key ?g) (snd ?W) = Some ip"
  proof (intro impI)
    assume h: "ParseGroup v \<noteq> None \<and> no_faults w \<and>
            map_of (services w) \<lparr>Namespace = serviceNamespace r p, Name = p_Name p\<rparr> = Some service \<and>
            s_Ingress service = ip # others \<and>
            map_of (policies w) \<lparr>Namespace = [], Name = p_Name p\<rparr> = Some stored"
    have pg: "ParseGroup v \<noteq> None" by (rule conjunct1[OF h])
    have nf: "no_faults w" by (rule conjunct1[OF conjunct2[OF h]])
    have svc: "map_of (services w) \<lparr>Namespace = serviceNamespace r p, Name = p_Name p\<rparr> = Some service"
      by (rule conjunct1[OF conjunct2[OF conjunct2[OF h]]])
    have rest: "no_faults w \<and> s_Ingress service = ip # others \<and>
            map_of (policies w) \<lparr>Namespace = [], Name = p_Name p\<rparr> = Some stored"
      by (rule conjI[OF nf conjunct2[OF conjunct2[OF conjunct2[OF h]]]])
    have f2: "\<not> faults w (Suc (Suc (length (trace w))))" using nf by (simp add: no_faults_def)
    note ws = G_step_create_with_service[OF absent ns sch pg f0 f1 f2 svc,
          where ip = ip and others = others and stored = stored]
    show "stored_EgressIP (g_key ?g) (snd ?W) = Some ip"
      by (rule mp[OF conjunct2[OF ws] rest])
  qed
  show ?thesis
    by (rule conjI[OF c1 conjI[OF c2 conjI[OF c3 conjI[OF c4 conjI[OF c5 c6]]]]])
qed

theorem C6_create_then_synchronize_witness:
  "map_of (gatewayPolicies ex_fresh) \<lparr>Namespace = '''', Name = ''egress-system-web''\<rparr> = None
   \<and> map_of (services ex_fresh) \<lparr>Namespace = ''egress-system'', Name = ''web''\<rparr> = None
   \<and> fst (UpdateOrCreateCiliumEgressGatewayPolicy ex_reconciler ex_policy ex_fresh) = None
   \<and> gatewayPolicies (snd (UpdateOrCreateCiliumEgressGatewayPolicy ex_reconciler ex_policy ex_fresh))
        = [(\<lparr>Namespace = '''', Name = ''egress-system-web''\<rparr>,
            created_gatewayPolicy ex_reconciler ''cilium.angeloxx.ch/v2'' ex_policy)]
   \<and> events (snd (UpdateOrCreateCiliumEgressGatewayPolicy ex_reconciler ex_policy ex_fresh))
        = [Created_event ex_policy]
   \<and> map_of (gatewayPolicies ex_without_gateway) \<lparr>Namespace = '''', Name = ''egress-system-web''\<rparr> = None
   \<and> map_of (services ex_without_gateway) \<lparr>Namespace = ''egress-system'', Name = ''web''\<rparr> = Some ex_service
   \<and> no_faults ex_without_gateway
   \<and> take 2 (calls_since ex_without_gateway
        (snd (UpdateOrCreateCiliumEgressGatewayPolicy ex_reconciler ex_policy ex_without_gateway))) =
        [(Get_GatewayPolicy \<lparr>Namespace = '''', Name = ''egress-system-web''\<rparr>, Some NotFound),
         (Create_GatewayPolicy (created_gatewayPolicy ex_reconciler ''cilium.angeloxx.ch/v2'' ex_policy), None)]
   \<and> stored_EgressIP \<lparr>Namespace = '''', Name = ''egress-system-web''\<rparr>
        (snd (UpdateOrCreateCiliumEgressGatewayPolicy ex_reconciler ex_policy ex_without_gateway))
        = Some ''10.0.0.5''"
proof -
  let ?v = "''cilium.angeloxx.ch/v2''"
  have k: "g_key (created_gatewayPolicy ex_reconciler ?v ex_policy) = \<lparr>Namespace = '''', Name = ''egress-system-web''\<rparr>"
    by (simp add: g_key_def created_gatewayPolicy_def ciliumEgressGatewayPolicyNew_def serviceNamespace_def
        index_map_def ex_defs)
  have ns: "p_Namespace ex_policy = []" by (simp add: ex_policy_def)
  have sch: "Scheme ex_reconciler = Some ?v" by (simp add: ex_reconciler_def)
  have pg: "ParseGroup ?v \<noteq> None" by (simp add: ParseGroup_def)
  have sn: "serviceNamespace ex_reconciler ex_policy = ''egress-system''" "p_Name ex_policy = ''web''"
    by (simp_all add: serviceNamespace_def index_map_def ex_defs)
  have absent: "map_of (gatewayPolicies ex_without_gateway) (g_key (created_gatewayPolicy ex_reconciler ?v ex_policy)) = None"
    by (simp add: ex_without_gateway_def)
  have nf: "no_faults ex_without_gateway" by (simp add: no_faults_def ex_without_gateway_def ex_world_def)
  have f: "\<not> faults ex_without_gateway (length (trace ex_without_gateway))"
    "\<not> faults ex_without_gateway (Suc (length (trace ex_without_gateway)))"
    using nf by (simp_all add: no_faults_def)
  have svc: "map_of (services ex_without_gateway)
               \<lparr>Namespace = ''egress-system'', Name = ''web''\<rparr> = Some ex_service"
    by (simp add: ex_without_gateway_def ex_world_def)
  have ing: "s_Ingress ex_service = ''10.0.0.5'' # []" by (simp add: ex_service_def)
  have pol: "map_of (policies ex_without_gateway) \<lparr>Namespace = [], Name = ''web''\<rparr> = Some ex_policy"
    by (simp add: ex_without_gateway_def ex_world_def)
  have absent': "map_of (gatewayPolicies ex_fresh) (g_key (created_gatewayPolicy ex_reconciler ?v ex_policy)) = None"
    by (simp add: ex_fresh_def)
  have f': "\<not> faults ex_fresh (length (trace ex_fresh))" "\<not> faults ex_fresh (Suc (length (trace ex_fresh)))"
    by (simp_all add: ex_fresh_def ex_world_def)
  have nosvc: "map_of (services ex_fresh) \<lparr>Namespace = ''egress-system'', Name = ''web''\<rparr> = None"
    by (simp add: ex_fresh_def)
  have init: "gatewayPolicies ex_fresh = []" "events ex_fresh = []"
    by (simp_all add: ex_fresh_def ex_world_def)
  have nosvc': "map_of (services ex_fresh)
       \<lparr>Namespace = serviceNamespace ex_reconciler ex_policy, Name = p_Name ex_policy\<rparr> = None"
    unfolding sn by (rule nosvc)
  have svc': "map_of (services ex_without_gateway)
       \<lparr>Namespace = serviceNamespace ex_reconciler ex_policy, Name = p_Name ex_policy\<rparr> = Some ex_service"
    unfolding sn by (rule svc)
  have pol': "map_of (policies ex_without_gateway) \<lparr>Namespace = [], Name = p_Name ex_policy\<rparr> = Some ex_policy"
    unfolding sn by (rule pol)
  note A = C6_create_then_synchronize[OF absent' ns sch f', where service = ex_service
        and ip = "''10.0.0.5''" and others = "[]" and stored = ex_policy]
  note B = C6_create_then_synchronize[OF absent ns sch f, where service = ex_service
        and ip = "''10.0.0.5''" and others = "[]" and stored = ex_policy]
  note A4 = mp[OF conjunct1[OF conjunct2[OF conjunct2[OF conjunct2[OF A]]]] conjI[OF pg disjI2[OF nosvc']]]
  note B1 = conjunct1[OF B]
  note B6 = mp[OF conjunct2[OF conjunct2[OF conjunct2[OF conjunct2[OF conjunct2[OF B]]]]]
               conjI[OF pg conjI[OF nf conjI[OF svc' conjI[OF ing pol']]]]]
  have a1: "fst (UpdateOrCreateCiliumEgressGatewayPolicy ex_reconciler ex_policy ex_fresh) = None"
    by (rule conjunct1[OF A4])
  have a2: "gatewayPolicies (snd (UpdateOrCreateCiliumEgressGatewayPolicy ex_reconciler ex_policy ex_fresh))
        = [(\<lparr>Namespace = '''', Name = ''egress-system-web''\<rparr>,
            created_gatewayPolicy ex_reconciler ''cilium.angeloxx.ch/v2'' ex_policy)]"
    using conjunct1[OF conjunct2[OF A4]] unfolding k init by simp
  have a3: "events (snd (UpdateOrCreateCiliumEgressGatewayPolicy ex_reconciler ex_policy ex_fresh))
        = [Created_event ex_policy]"
    using conjunct1[OF conjunct2[OF conjunct2[OF A4]]] unfolding init by simp
  have b1: "take 2 (calls_since ex_without_gateway
        (snd (UpdateOrCreateCiliumEgressGatewayPolicy ex_reconciler ex_policy ex_without_gateway))) =
        [(Get_GatewayPolicy \<lparr>Namespace = '''', Name = ''egress-system-web''\<rparr>, Some NotFound),
         (Create_GatewayPolicy (created_gatewayPolicy ex_reconciler ''cilium.angeloxx.ch/v2'' ex_policy), None)]"
    using B1 unfolding k .
  have b6: "stored_EgressIP \<lparr>Namespace = '''', Name = ''egress-system-web''\<rparr>
        (snd (UpdateOrCreateCiliumEgressGatewayPolicy ex_reconciler ex_policy ex_without_gateway))
        = Some ''10.0.0.5''"
    using B6 unfolding k .
  have g0: "map_of (gatewayPolicies ex_fresh) \<lparr>Namespace = '''', Name = ''egress-system-web''\<rparr> = None"
    using absent' unfolding k .
  have g1: "map_of (gatewayPolicies ex_without_gateway) \<lparr>Namespace = '''', Name = ''egress-system-web''\<rparr> = None"
    using absent unfolding k .
  show ?thesis
    by (rule conjI[OF g0 conjI[OF nosvc conjI[OF a1 conjI[OF a2 conjI[OF a3 conjI[OF g1
          conjI[OF svc conjI[OF nf conjI[OF b1 b6]]]]]]]]])
qed

text \<open>
  Claim C7, evaluated on a Service that the Policy controls, whose selector is outdated and
  which carries the annotation naming the current host: the Service step sends the whole
  desired Service in an update, after which the stored Service has lost that annotation,
  and it records no event.
\<close>

theorem C7_service_update_replaces_object:
  "map_option s_Annotations (map_of (services ex_drifted) \<lparr>Namespace = ''egress-system'', Name = ''web''\<rparr>)
     = Some [(''vipHost'', ''node-3'')]
   \<and> fst (UpdateOrCreateService ex_reconciler ex_policy ex_drifted) = None
   \<and> map_option s_Annotations
        (map_of (services (snd (UpdateOrCreateService ex_reconciler ex_policy ex_drifted)))
           \<lparr>Namespace = ''egress-system'', Name = ''web''\<rparr>) = Some []
   \<and> events (snd (UpdateOrCreateService ex_reconciler ex_policy ex_drifted)) = []
   \<and> calls_since ex_drifted (snd (UpdateOrCreateService ex_reconciler ex_policy ex_drifted)) =
        [(Get_Service \<lparr>Namespace = ''egress-system'', Name = ''web''\<rparr>, None),
         (Update_Service ((serviceNew ex_reconciler ex_policy)\<lparr>s_OwnerReferences := [ex_ref]\<rparr>), None)]"
  by (simp add: UpdateOrCreateService_def ex_drifted_def ex_defs prim_defs
      serviceNew_def serviceNamespace_def index_map_def assign_map_def SetControllerReference_def
      validateOwner_def IsControlledBy_def DeepEqual_map_def calls_since_def s_key_def Let_def)

section \<open>Which Policy a derived object leads back to\<close>

lemma Sync_address_no_policy_lookup:
  "policy_lookups w (snd (Sync_address c service g hp w)) = []"
  by (simp add: policy_lookups_def Sync_address_def calls_since_def Let_def case_prod_beta
      split: list.splits sum.splits)

lemma policy_lookups_append:
  "extends a b \<Longrightarrow> extends b c \<Longrightarrow> policy_lookups a c = policy_lookups a b @ policy_lookups b c"
  using calls_since_append[of a b c] by (simp add: policy_lookups_def)

lemma Sync_node_no_policy_lookup:
  "policy_lookups w (snd (Sync_node c service g ph ch hp w)) = []"
proof -
  have nw: "\<And>a. is_write a \<Longrightarrow> \<not> is_Get_Policy a"
    by (case_tac a) simp_all
  have "\<And>x. x \<in> set (calls_since w (snd (Sync_node c service g ph ch hp w))) \<Longrightarrow> \<not> is_Get_Policy (fst x)"
    using Sync_node_calls[of _ w c service g ph ch hp] nw by blast
  then show ?thesis by (simp add: policy_lookups_def filter_empty_conv)
qed

lemma Sync_owner_policy_lookups:
  "policy_lookups w (snd (Sync_owner ns refs hp w)) =
     (case first_policy_owner refs of None \<Rightarrow> []
      | Some ref \<Rightarrow> [Get_Policy \<lparr>Namespace = ns, Name = RefName ref\<rparr>])"
  by (simp add: policy_lookups_def Sync_owner_calls(2) split: option.splits)

lemma Sync_policy_lookups:
  "policy_lookups w (snd (SyncServiceWithCiliumEgressGatewayPolicy c service g w)) =
     (case first_policy_owner (g_OwnerReferences g) of None \<Rightarrow> []
      | Some ref \<Rightarrow> [Get_Policy \<lparr>Namespace = g_Namespace g, Name = RefName ref\<rparr>])"
proof -
  let ?o = "Sync_owner (g_Namespace g) (g_OwnerReferences g) zero_policy w"
  have e1: "extends w (snd ?o)" by (rule Sync_owner_calls(1))
  note l1 = Sync_owner_policy_lookups[of w "g_Namespace g" "g_OwnerReferences g" zero_policy]
  show ?thesis
  proof (cases "fst ?o")
    case None
    then show ?thesis using l1
      by (simp add: SyncServiceWithCiliumEgressGatewayPolicy_def case_prod_beta)
  next
    case (Some hp)
    let ?a = "Sync_address c service g hp (snd ?o)"
    have e2: "extends (snd ?o) (snd ?a)" by (rule Sync_address_extends)
    have l2: "policy_lookups w (snd ?a) = policy_lookups w (snd ?o)"
      using policy_lookups_append[OF e1 e2] Sync_address_no_policy_lookup by simp
    show ?thesis
    proof (cases "fst ?a")
      case (Inl ret)
      then show ?thesis using Some l1 l2
        by (simp add: SyncServiceWithCiliumEgressGatewayPolicy_def case_prod_beta Let_def)
    next
      case (Inr hp')
      let ?ph = "index_map (NodeSelector_MatchLabels (Gateway (g_Spec g))) (NodeNameAnnotation c)"
      let ?ch = "index_map (s_Annotations service) (KubeVIPVipHostAnnotation c)"
      let ?n = "Sync_node c service g ?ph ?ch hp' (snd ?a)"
      have e3: "extends (snd ?a) (snd ?n)" by (rule Sync_node_extends)
      have "policy_lookups w (snd ?n) = policy_lookups w (snd ?a)"
        using policy_lookups_append[OF extends_trans[OF e1 e2] e3] Sync_node_no_policy_lookup by simp
      then show ?thesis using Some Inr l1 l2
        by (simp add: SyncServiceWithCiliumEgressGatewayPolicy_def case_prod_beta Let_def)
    qed
  qed
qed

lemma lookups_unscoped_refl: "lookups_unscoped w w"
  by (simp add: lookups_unscoped_def calls_since_def)

lemma lookups_unscoped_call:
  assumes "lookups_unscoped w w1" and "trace w2 = trace w1 @ [(c, out)]" and "\<not> is_Get_Policy c"
  shows "lookups_unscoped w w2"
proof -
  have e: "extends w1 w2" using assms(2) by (rule extendsI)
  have "calls_since w1 w2 = [(c, out)]" using assms(2) by (simp add: calls_since_def)
  then have "calls_since w w2 = calls_since w w1 @ [(c, out)]"
    using calls_since_append[of w w1 w2] assms(1) e by (simp add: lookups_unscoped_def)
  then show ?thesis using assms(1,3) extends_trans[of w w1 w2] e
    by (cases c) (simp_all add: lookups_unscoped_def)
qed

lemma lookups_unscoped_same:
  "lookups_unscoped w w1 \<Longrightarrow> trace w2 = trace w1 \<Longrightarrow> lookups_unscoped w w2"
  by (simp add: lookups_unscoped_def extends_def calls_since_def)

lemma lookups_unscoped_Sync:
  assumes "lookups_unscoped w w1" and "g_Namespace g = []"
  shows "lookups_unscoped w (snd (SyncServiceWithCiliumEgressGatewayPolicy c service g w1))"
proof -
  let ?w2 = "snd (SyncServiceWithCiliumEgressGatewayPolicy c service g w1)"
  have e: "extends w1 ?w2" by (rule Sync_extends)
  have a: "calls_since w ?w2 = calls_since w w1 @ calls_since w1 ?w2"
    using calls_since_append[of w w1 ?w2] assms(1) e by (simp add: lookups_unscoped_def)
  have "list_all (\<lambda>c. case c of Get_Policy k \<Rightarrow> Namespace k = [] | _ \<Rightarrow> True) (map fst (calls_since w1 ?w2))"
  proof -
    have "\<And>k. Get_Policy k \<in> set (map fst (calls_since w1 ?w2)) \<Longrightarrow> Namespace k = []"
    proof -
      fix k assume "Get_Policy k \<in> set (map fst (calls_since w1 ?w2))"
      then have "Get_Policy k \<in> set (policy_lookups w1 ?w2)" by (simp add: policy_lookups_def)
      then show "Namespace k = []"
        unfolding Sync_policy_lookups using assms(2) by (auto split: option.splits)
    qed
    then have "\<And>a. a \<in> set (map fst (calls_since w1 ?w2)) \<Longrightarrow>
                 (case a of Get_Policy k \<Rightarrow> Namespace k = [] | _ \<Rightarrow> True)"
      by (case_tac a) simp_all
    then show ?thesis unfolding list_all_iff by blast
  qed
  then show ?thesis using assms(1) a extends_trans[of w w1 ?w2] e
    by (simp add: lookups_unscoped_def)
qed

lemma lookups_unscoped_steps:
  "lookups_unscoped w (w1\<lparr>lastServiceUpdate := t\<rparr>) = lookups_unscoped w w1"
  "lookups_unscoped w (snd (time_Now w1)) = lookups_unscoped w w1"
  "lookups_unscoped w (Event obj ty reason w1) = lookups_unscoped w w1"
  by (simp_all add: lookups_unscoped_def extends_def calls_since_def time_Now_def Event_def)

lemma lookups_unscoped_prims:
  "lookups_unscoped w w1 \<Longrightarrow> lookups_unscoped w (snd (Get_gatewayPolicy k w1))"
  "lookups_unscoped w w1 \<Longrightarrow> lookups_unscoped w (snd (Get_service k w1))"
  "lookups_unscoped w w1 \<Longrightarrow> lookups_unscoped w (snd (Create_gatewayPolicy g w1))"
  "lookups_unscoped w w1 \<Longrightarrow> lookups_unscoped w (snd (Update_gatewayPolicy g w1))"
  by (erule lookups_unscoped_call, simp, simp)+

lemma G_step_lookups_unscoped:
  "lookups_unscoped w (snd (UpdateOrCreateCiliumEgressGatewayPolicy r p w))"
  by (simp add: UpdateOrCreateCiliumEgressGatewayPolicy_def Let_def case_prod_beta
      lookups_unscoped_steps lookups_unscoped_prims lookups_unscoped_Sync lookups_unscoped_refl
      ciliumEgressGatewayPolicyNew_def split: sum.splits option.splits)

text \<open>
  Claim C10. Every request emitted by the Event Router carries the namespace of the watched
  object; the only lookup of a Policy that the Feedback Synchronizer makes names the first
  owner reference of kind Policy under the namespace of the GatewayPolicy; and the
  GatewayPolicy that the Drift Reconciler builds has the empty namespace, so every lookup
  of a Policy made while its GatewayPolicy step runs names the empty namespace.
\<close>

theorem C10_requests_carry_object_namespace:
  "map Namespace (findObjectsForHaegressGatewayPolicy obj)
     = replicate (length (findObjectsForHaegressGatewayPolicy obj)) (GetNamespace obj)
   \<and> policy_lookups w (snd (SyncServiceWithCiliumEgressGatewayPolicy c service g w)) =
       (case first_policy_owner (g_OwnerReferences g) of None \<Rightarrow> []
        | Some ref \<Rightarrow> [Get_Policy \<lparr>Namespace = g_Namespace g, Name = RefName ref\<rparr>])
   \<and> g_Namespace (ciliumEgressGatewayPolicyNew r p) = []
   \<and> list_all (\<lambda>c. case c of Get_Policy k \<Rightarrow> Namespace k = [] | _ \<Rightarrow> True)
        (map fst (calls_since w (snd (UpdateOrCreateCiliumEgressGatewayPolicy r p w))))"
proof -
  have a: "map Namespace (findObjectsForHaegressGatewayPolicy obj)
     = replicate (length (findObjectsForHaegressGatewayPolicy obj)) (GetNamespace obj)"
    by (simp add: findObjectsForHaegressGatewayPolicy_def findObjects_loop_eq map_replicate_const comp_def)
  have c: "g_Namespace (ciliumEgressGatewayPolicyNew r p) = []"
    by (simp add: ciliumEgressGatewayPolicyNew_def)
  have d: "list_all (\<lambda>c. case c of Get_Policy k \<Rightarrow> Namespace k = [] | _ \<Rightarrow> True)
        (map fst (calls_since w (snd (UpdateOrCreateCiliumEgressGatewayPolicy r p w))))"
    using G_step_lookups_unscoped[of w r p] by (simp add: lookups_unscoped_def)
  from a Sync_policy_lookups[of w c service g] c d show ?thesis by blast
qed

theorem C10_requests_carry_object_namespace_witness:
  "findObjectsForHaegressGatewayPolicy (GatewayPolicyObject ex_gatewayPolicy)
     = [\<lparr>Namespace = [], Name = ''web''\<rparr>]
   \<and> map Namespace (findObjectsForHaegressGatewayPolicy (GatewayPolicyObject ex_gatewayPolicy)) = [[]]
   \<and> policy_lookups ex_world
        (snd (SyncServiceWithCiliumEgressGatewayPolicy ex_consts ex_service ex_gatewayPolicy ex_world))
       = [Get_Policy \<lparr>Namespace = [], Name = ''web''\<rparr>]"
proof -
  have f: "findObjectsForHaegressGatewayPolicy (GatewayPolicyObject ex_gatewayPolicy)
     = [\<lparr>Namespace = [], Name = ''web''\<rparr>]"
    by (simp add: findObjectsForHaegressGatewayPolicy_def ex_gatewayPolicy_def ex_ref_def)
  have o: "first_policy_owner (g_OwnerReferences ex_gatewayPolicy) = Some ex_ref"
    by (simp add: ex_gatewayPolicy_def ex_ref_def)
  have n: "g_Namespace ex_gatewayPolicy = []" "RefName ex_ref = ''web''"
    by (simp_all add: ex_gatewayPolicy_def ex_ref_def)
  show ?thesis
    using C10_requests_carry_object_namespace[of "GatewayPolicyObject ex_gatewayPolicy" ex_world
        ex_consts ex_service ex_gatewayPolicy ex_reconciler ex_policy] f o n
    by simp
qed

end
